theory Spec2Isabelle
  imports Complex_Main
begin

section \<open>Conditional character-level RNN (conditional\_rnn/conditional-char-rnn.ipynb)\<close>

text \<open>
  A shallow embedding of the notebook's encoder (\<open>categoryTensor\<close>, \<open>inputTensor\<close>,
  \<open>targetTensor\<close>), its recurrent cell (\<open>RNN.forward\<close>), its training step (\<open>train\<close>)
  and its sampler (\<open>sample\<close>).

  Conventions of the embedding.
  \<^item> Tensor entries are real numbers: the cell is modelled by the exact arithmetic its
    floating-point code approximates. Rounding is not modelled.
  \<^item> A tensor of shape \<open>1 \<times> n\<close> (a batch of one row) is the list of its \<open>n\<close> entries; a
    tensor of shape \<open>L \<times> 1 \<times> n\<close> is the list of its \<open>L\<close> rows.
  \<^item> Every exception of the Python code is a value \<open>Inl e\<close> of the result type.
  \<^item> A Python string is a list of characters; a symbol outside the alphabet is any
    character that does not occur in \<open>all_letters\<close>.
  \<^item> The global variables of the notebook (\<open>all_categories\<close>, the model \<open>rnn\<close>) are
    parameters of the functions that read them. The random number generator is a parameter
    too: \<open>masks i j\<close> says whether the dropout layer zeroes entry \<open>j\<close> in the \<open>i\<close>-th call of
    the cell, and \<open>multinomial i d\<close> is the index the \<open>i\<close>-th draw returns on the
    distribution \<open>d\<close>.
\<close>

subsection \<open>Python values and exceptions\<close>

datatype error = ValueError | IndexError | RuntimeError | AttributeError

text \<open>\<open>xs[i]\<close> for a Python sequence: a negative index counts from the end, an index out
  of range raises \<open>IndexError\<close>.\<close>

definition py_index :: "nat \<Rightarrow> int \<Rightarrow> error + nat" where
  "py_index n i =
     (if 0 \<le> i \<and> i < int n then Inr (nat i)
      else if - int n \<le> i \<and> i < 0 then Inr (nat (int n + i))
      else Inl IndexError)"

definition py_get :: "'a list \<Rightarrow> int \<Rightarrow> error + 'a" where
  "py_get xs i = (case py_index (length xs) i of Inl e \<Rightarrow> Inl e | Inr j \<Rightarrow> Inr (xs ! j))"

text \<open>\<open>xs[i] = v\<close> on one row of a tensor.\<close>

definition set_item :: "'a list \<Rightarrow> int \<Rightarrow> 'a \<Rightarrow> error + 'a list" where
  "set_item xs i v = (case py_index (length xs) i of Inl e \<Rightarrow> Inl e | Inr j \<Rightarrow> Inr (xs[j := v]))"

text \<open>\<open>s.find(c)\<close> for a one-character \<open>c\<close>: the first position of \<open>c\<close> in \<open>s\<close>, or \<open>-1\<close>.\<close>

primrec str_find :: "string \<Rightarrow> char \<Rightarrow> int" where
  "str_find [] c = - 1"
| "str_find (x # xs) c =
     (if x = c then 0 else (let r = str_find xs c in if r < 0 then - 1 else r + 1))"

text \<open>\<open>xs.index(x)\<close>: the first position of \<open>x\<close> in the list, \<open>ValueError\<close> when absent.\<close>

primrec list_index :: "'a list \<Rightarrow> 'a \<Rightarrow> error + nat" where
  "list_index [] x = Inl ValueError"
| "list_index (y # ys) x =
     (if y = x then Inr 0
      else (case list_index ys x of Inl e \<Rightarrow> Inl e | Inr k \<Rightarrow> Inr (Suc k)))"

text \<open>\<open>torch.zeros(n)\<close>.\<close>

definition zeros :: "nat \<Rightarrow> real list" where
  "zeros n = replicate n 0"

subsection \<open>Vocabulary\<close>

text \<open>\<open>all_letters = string.ascii_letters + " .,;'-"\<close>, \<open>n_letters = len(all_letters) + 1\<close>,
  \<open>EOS = n_letters - 1\<close>.\<close>

definition all_letters :: string where
  "all_letters = ''abcdefghijklmnopqrstuvwxyzABCDEFGHIJKLMNOPQRSTUVWXYZ .,;'-''"

definition n_letters :: nat where
  "n_letters = length all_letters + 1"

definition EOS :: nat where
  "EOS = n_letters - 1"

subsection \<open>Encoder\<close>

text \<open>
\<^verbatim>\<open>
def categoryTensor(category):
    li = all_categories.index(category)
    tensor = torch.zeros(1, n_categories)
    tensor[0][li] = 1
    return tensor
\<close>
  with \<open>n_categories = len(all_categories)\<close>.
\<close>

definition categoryTensor :: "string list \<Rightarrow> string \<Rightarrow> error + real list" where
  "categoryTensor all_categories category =
     (case list_index all_categories category of
        Inl e \<Rightarrow> Inl e
      | Inr li \<Rightarrow> set_item (zeros (length all_categories)) (int li) 1)"

text \<open>
\<^verbatim>\<open>
def inputTensor(line):
    tensor = torch.zeros(len(line), 1, n_letters)
    for li in range(len(line)):
        letter = line[li]
        tensor[li][0][all_letters.find(letter)] = 1
    return tensor
\<close>
  The loop runs over the positions \<open>lis\<close> still to be written and carries the tensor.
\<close>

fun inputTensor_loop :: "string \<Rightarrow> nat list \<Rightarrow> real list list \<Rightarrow> error + real list list" where
  "inputTensor_loop line [] tensor = Inr tensor"
| "inputTensor_loop line (li # lis) tensor =
     (case py_get line (int li) of
        Inl e \<Rightarrow> Inl e
      | Inr letter \<Rightarrow>
          (case py_get tensor (int li) of
             Inl e \<Rightarrow> Inl e
           | Inr row \<Rightarrow>
               (case set_item row (str_find all_letters letter) 1 of
                  Inl e \<Rightarrow> Inl e
                | Inr row' \<Rightarrow> inputTensor_loop line lis (tensor[li := row']))))"

definition inputTensor :: "string \<Rightarrow> error + real list list" where
  "inputTensor line =
     inputTensor_loop line [0..<length line] (replicate (length line) (zeros n_letters))"

text \<open>
\<^verbatim>\<open>
def targetTensor(line):
    letter_indexes = [all_letters.find(line[li]) for li in range(1, len(line))]
    letter_indexes.append(n_letters - 1) # EOS
    return torch.LongTensor(letter_indexes)
\<close>
\<close>

fun letter_indexes_of :: "string \<Rightarrow> nat list \<Rightarrow> error + int list" where
  "letter_indexes_of line [] = Inr []"
| "letter_indexes_of line (li # lis) =
     (case py_get line (int li) of
        Inl e \<Rightarrow> Inl e
      | Inr letter \<Rightarrow>
          (case letter_indexes_of line lis of
             Inl e \<Rightarrow> Inl e
           | Inr rest \<Rightarrow> Inr (str_find all_letters letter # rest)))"

definition targetTensor :: "string \<Rightarrow> error + int list" where
  "targetTensor line =
     (case letter_indexes_of line [1..<length line] of
        Inl e \<Rightarrow> Inl e
      | Inr letter_indexes \<Rightarrow> Inr (letter_indexes @ [int n_letters - 1]))"

text \<open>
\<^verbatim>\<open>
def random_training_example():
    category, line = random_training_pair()
    category_tensor = Variable(categoryTensor(category))
    input_line_tensor = Variable(inputTensor(line))
    target_line_tensor = Variable(targetTensor(line))
    return category_tensor, input_line_tensor, target_line_tensor
\<close>
  The pair drawn by \<open>random_training_pair\<close> is the argument \<open>(category, line)\<close>.
\<close>

definition random_training_example ::
  "string list \<Rightarrow> string \<times> string \<Rightarrow> error + (real list \<times> real list list \<times> int list)" where
  "random_training_example all_categories pair =
     (case categoryTensor all_categories (fst pair) of
        Inl e \<Rightarrow> Inl e
      | Inr category_tensor \<Rightarrow>
          (case inputTensor (snd pair) of
             Inl e \<Rightarrow> Inl e
           | Inr input_line_tensor \<Rightarrow>
               (case targetTensor (snd pair) of
                  Inl e \<Rightarrow> Inl e
                | Inr target_line_tensor \<Rightarrow>
                    Inr (category_tensor, input_line_tensor, target_line_tensor))))"

subsection \<open>The recurrent cell\<close>

text \<open>\<open>nn.Linear(in_features, out_features)\<close>: a weight matrix of \<open>out_features\<close> rows and
  \<open>in_features\<close> columns and a bias of \<open>out_features\<close> entries; applied to a row \<open>x\<close> it
  returns \<open>x W\<^sup>T + b\<close>, and raises \<open>RuntimeError\<close> when the size of \<open>x\<close> is not
  \<open>in_features\<close>.\<close>

record Linear =
  in_features :: nat
  out_features :: nat
  weight :: "real list list"
  bias :: "real list"

definition dot :: "real list \<Rightarrow> real list \<Rightarrow> real" where
  "dot xs ys = sum_list (map2 (*) xs ys)"

definition affine :: "Linear \<Rightarrow> real list \<Rightarrow> real list" where
  "affine L x = map2 (\<lambda>row b. dot row x + b) (weight L) (bias L)"

definition Linear_forward :: "Linear \<Rightarrow> real list \<Rightarrow> error + real list" where
  "Linear_forward L x = (if length x = in_features L then Inr (affine L x) else Inl RuntimeError)"

definition wf_Linear :: "Linear \<Rightarrow> bool" where
  "wf_Linear L \<longleftrightarrow>
     length (weight L) = out_features L \<and> length (bias L) = out_features L \<and>
     list_all (\<lambda>row. length row = in_features L) (weight L)"

text \<open>\<open>nn.Dropout(p)\<close>: in training mode every entry is zeroed with probability \<open>p\<close> and the
  others are scaled by \<open>1 / (1 - p)\<close>; in evaluation mode it is the identity. \<open>zeroed j\<close> says
  whether entry \<open>j\<close> is zeroed by this call.\<close>

definition nn_Dropout :: "real \<Rightarrow> bool \<Rightarrow> (nat \<Rightarrow> bool) \<Rightarrow> real list \<Rightarrow> real list" where
  "nn_Dropout p train zeroed xs =
     (if train then map (\<lambda>j. if zeroed j then 0 else xs ! j / (1 - p)) [0..<length xs] else xs)"

text \<open>\<open>nn.LogSoftmax(dim=-1)\<close>.\<close>

definition LogSoftmax :: "real list \<Rightarrow> real list" where
  "LogSoftmax xs = map (\<lambda>x. x - ln (sum_list (map exp xs))) xs"

text \<open>
\<^verbatim>\<open>
class RNN(nn.Module):
    def __init__(self, cat_size, input_size, hidden_size, output_size, dropout=0.1):
        ...
        self.i2h = nn.Linear(cat_size+input_size+hidden_size, hidden_size)
        self.i2o = nn.Linear(cat_size+input_size+hidden_size, output_size)
        self.o2o = nn.Linear(output_size+hidden_size, output_size)
        self.dropout = nn.Dropout(dropout)
        self.softmax = nn.LogSoftmax(dim=-1)
\<close>
  \<open>training\<close> is the mode flag every \<open>nn.Module\<close> carries: the constructor sets it, and only
  \<open>eval()\<close> clears it. The notebook never calls \<open>eval()\<close>.
\<close>

record RNN =
  cat_size :: nat
  input_size :: nat
  hidden_size :: nat
  output_size :: nat
  i2h :: Linear
  i2o :: Linear
  o2o :: Linear
  dropout :: real
  training :: bool

text \<open>The shapes the constructor establishes, and the model as the constructor leaves it:
  these shapes, in training mode.\<close>

definition RNN_shapes :: "RNN \<Rightarrow> bool" where
  "RNN_shapes rnn \<longleftrightarrow>
     in_features (i2h rnn) = cat_size rnn + input_size rnn + hidden_size rnn \<and>
     out_features (i2h rnn) = hidden_size rnn \<and> wf_Linear (i2h rnn) \<and>
     in_features (i2o rnn) = cat_size rnn + input_size rnn + hidden_size rnn \<and>
     out_features (i2o rnn) = output_size rnn \<and> wf_Linear (i2o rnn) \<and>
     in_features (o2o rnn) = output_size rnn + hidden_size rnn \<and>
     out_features (o2o rnn) = output_size rnn \<and> wf_Linear (o2o rnn)"

definition RNN_init :: "RNN \<Rightarrow> bool" where
  "RNN_init rnn \<longleftrightarrow> RNN_shapes rnn \<and> training rnn"

text \<open>
\<^verbatim>\<open>
    def forward(self, cat, input, hidden): # batch*d
        input_combined = torch.cat((cat, input, hidden),-1)
        hidden = self.i2h(input_combined)
        output = self.i2o(input_combined)
        output_combined = torch.cat((output, hidden),-1)
        output = self.o2o(output_combined)
        output = self.dropout(output)
        output = self.softmax(output)
        return output, hidden

    def init_hidden(self):
        return Variable(torch.zeros(1,self.hidden_size))
\<close>
\<close>

definition forward ::
  "RNN \<Rightarrow> (nat \<Rightarrow> bool) \<Rightarrow> real list \<Rightarrow> real list \<Rightarrow> real list \<Rightarrow> error + (real list \<times> real list)" where
  "forward rnn zeroed cat inp hidden =
     (let input_combined = cat @ inp @ hidden in
      case Linear_forward (i2h rnn) input_combined of
        Inl e \<Rightarrow> Inl e
      | Inr hidden' \<Rightarrow>
          (case Linear_forward (i2o rnn) input_combined of
             Inl e \<Rightarrow> Inl e
           | Inr output \<Rightarrow>
               (case Linear_forward (o2o rnn) (output @ hidden') of
                  Inl e \<Rightarrow> Inl e
                | Inr output' \<Rightarrow>
                    Inr (LogSoftmax (nn_Dropout (dropout rnn) (training rnn) zeroed output'),
                         hidden'))))"

definition init_hidden :: "RNN \<Rightarrow> real list" where
  "init_hidden rnn = zeros (hidden_size rnn)"

subsection \<open>Trainer\<close>

text \<open>\<open>nn.NLLLoss()\<close> on one row of log-probabilities and one target index: the negated
  entry at the target. A target outside \<open>0 .. n-1\<close> raises \<open>RuntimeError\<close>, except the
  layer's \<open>ignore_index\<close> (\<open>-100\<close>), which contributes no loss.\<close>

definition NLLLoss :: "real list \<Rightarrow> int \<Rightarrow> error + real" where
  "NLLLoss output target =
     (if target = - 100 then Inr 0
      else if 0 \<le> target \<and> target < int (length output) then Inr (- (output ! nat target))
      else Inl RuntimeError)"

text \<open>
\<^verbatim>\<open>
def train(cat_t, input_t, target_t):
    hidden = rnn.init_hidden()
    optimizer.zero_grad()
    loss = 0

    for i in range(target_t.size()[0]):
        output, hidden = rnn(cat_t, input_t[i], hidden)
        loss += criterion(output, target_t[i])

    loss.backward()
    optimizer.step()

    return output, loss.data[0] / target_t.size()[0]
\<close>
  The loop carries \<open>(output, hidden, loss)\<close>. With no target entry \<open>loss\<close> is still the
  integer \<open>0\<close> and \<open>loss.backward()\<close> raises \<open>AttributeError\<close>. The gradient step changes the
  weights later calls read, not the values this call returns; it is not modelled.
\<close>

fun train_loop ::
  "RNN \<Rightarrow> (nat \<Rightarrow> nat \<Rightarrow> bool) \<Rightarrow> real list \<Rightarrow> real list list \<Rightarrow> int list \<Rightarrow> nat list \<Rightarrow>
   real list \<times> real list \<times> real \<Rightarrow> error + (real list \<times> real list \<times> real)" where
  "train_loop rnn masks cat_t input_t target_t [] st = Inr st"
| "train_loop rnn masks cat_t input_t target_t (i # is) st =
     (case py_get input_t (int i) of
        Inl e \<Rightarrow> Inl e
      | Inr x \<Rightarrow>
          (case forward rnn (masks i) cat_t x (fst (snd st)) of
             Inl e \<Rightarrow> Inl e
           | Inr (output, hidden) \<Rightarrow>
               (case py_get target_t (int i) of
                  Inl e \<Rightarrow> Inl e
                | Inr t \<Rightarrow>
                    (case NLLLoss output t of
                       Inl e \<Rightarrow> Inl e
                     | Inr l \<Rightarrow>
                         train_loop rnn masks cat_t input_t target_t is
                           (output, hidden, snd (snd st) + l)))))"

definition train ::
  "RNN \<Rightarrow> (nat \<Rightarrow> nat \<Rightarrow> bool) \<Rightarrow> real list \<Rightarrow> real list list \<Rightarrow> int list \<Rightarrow>
   error + (real list \<times> real)" where
  "train rnn masks cat_t input_t target_t =
     (case train_loop rnn masks cat_t input_t target_t [0..<length target_t]
             ([], init_hidden rnn, 0) of
        Inl e \<Rightarrow> Inl e
      | Inr (output, hidden, loss) \<Rightarrow>
          if length target_t = 0 then Inl AttributeError
          else Inr (output, loss / real (length target_t)))"

text \<open>One iteration of the training loop: \<open>output, loss = train(*random_training_example())\<close>.\<close>

definition train_step ::
  "RNN \<Rightarrow> string list \<Rightarrow> (nat \<Rightarrow> nat \<Rightarrow> bool) \<Rightarrow> string \<times> string \<Rightarrow> error + (real list \<times> real)" where
  "train_step rnn all_categories masks pair =
     (case random_training_example all_categories pair of
        Inl e \<Rightarrow> Inl e
      | Inr (cat_t, input_t, target_t) \<Rightarrow> train rnn masks cat_t input_t target_t)"

subsection \<open>Sampler\<close>

definition max_length :: nat where
  "max_length = 20"

text \<open>
\<^verbatim>\<open>
def sample(category, start_letter='A'):
    category_tensor = Variable(categoryTensor(category))
    input = Variable(inputTensor(start_letter))
    hidden = rnn.init_hidden()

    output_name = start_letter

    for i in range(max_length):
        output, hidden = rnn(category_tensor, input[0], hidden)
        # sample from output distribution
        output_dist = torch.exp(output.data)
        topi = torch.multinomial(output_dist,1)
        # or greedy decode
#         topv, topi = output.data.topk(1)
        topi = topi[0][0]
        if topi == n_letters - 1:
            break
        else:
            letter = all_letters[topi]
            output_name += letter
        input = Variable(inputTensor(letter))

    return output_name
\<close>
  The loop runs over the iterations \<open>is\<close> still to come and carries
  \<open>(input, hidden, output_name)\<close>. \<open>pick i output\<close> is the index \<open>topi\<close> chosen in iteration
  \<open>i\<close> from the cell's output: the stochastic draw in \<open>sample\<close>, the index of the largest
  entry in the greedy variant the source keeps as a comment.
\<close>

fun sample_loop ::
  "RNN \<Rightarrow> (nat \<Rightarrow> nat \<Rightarrow> bool) \<Rightarrow> (nat \<Rightarrow> real list \<Rightarrow> nat) \<Rightarrow> real list \<Rightarrow> nat list \<Rightarrow>
   real list list \<Rightarrow> real list \<Rightarrow> string \<Rightarrow> error + string" where
  "sample_loop rnn masks pick category_tensor [] inp hidden output_name = Inr output_name"
| "sample_loop rnn masks pick category_tensor (i # is) inp hidden output_name =
     (case py_get inp 0 of
        Inl e \<Rightarrow> Inl e
      | Inr x \<Rightarrow>
          (case forward rnn (masks i) category_tensor x hidden of
             Inl e \<Rightarrow> Inl e
           | Inr (output, hidden') \<Rightarrow>
               (let topi = pick i output in
                if topi = n_letters - 1 then Inr output_name
                else
                  (case py_get all_letters (int topi) of
                     Inl e \<Rightarrow> Inl e
                   | Inr letter \<Rightarrow>
                       (case inputTensor [letter] of
                          Inl e \<Rightarrow> Inl e
                        | Inr inp' \<Rightarrow>
                            sample_loop rnn masks pick category_tensor is inp' hidden'
                              (output_name @ [letter]))))))"

definition sample_with ::
  "(nat \<Rightarrow> real list \<Rightarrow> nat) \<Rightarrow> RNN \<Rightarrow> string list \<Rightarrow> (nat \<Rightarrow> nat \<Rightarrow> bool) \<Rightarrow> string \<Rightarrow> string \<Rightarrow>
   error + string" where
  "sample_with pick rnn all_categories masks category start_letter =
     (case categoryTensor all_categories category of
        Inl e \<Rightarrow> Inl e
      | Inr category_tensor \<Rightarrow>
          (case inputTensor start_letter of
             Inl e \<Rightarrow> Inl e
           | Inr inp \<Rightarrow>
               sample_loop rnn masks pick category_tensor [0..<max_length] inp
                 (init_hidden rnn) start_letter))"

text \<open>The sampler as the notebook runs it: \<open>topi = torch.multinomial(torch.exp(output), 1)\<close>.\<close>

definition sample ::
  "RNN \<Rightarrow> string list \<Rightarrow> (nat \<Rightarrow> nat \<Rightarrow> bool) \<Rightarrow> (nat \<Rightarrow> real list \<Rightarrow> nat) \<Rightarrow> string \<Rightarrow> string \<Rightarrow>
   error + string" where
  "sample rnn all_categories masks multinomial category start_letter =
     sample_with (\<lambda>i output. multinomial i (map exp output)) rnn all_categories masks
       category start_letter"

text \<open>\<open>torch.multinomial\<close> returns a position of the distribution it is given.\<close>

definition valid_multinomial :: "(nat \<Rightarrow> real list \<Rightarrow> nat) \<Rightarrow> bool" where
  "valid_multinomial multinomial \<longleftrightarrow> (\<forall>i d. d \<noteq> [] \<longrightarrow> multinomial i d < length d)"

text \<open>\<open>output.topk(1)\<close>: the position of the largest entry. Where several entries are
  equally large, which of them \<open>torch\<close> returns is not specified; the model takes the first.
  The concrete runs below use rows with a single largest entry.\<close>

fun topk1 :: "real list \<Rightarrow> nat" where
  "topk1 [] = 0"
| "topk1 [x] = 0"
| "topk1 (x # y # ys) = (let k = topk1 (y # ys) in if (y # ys) ! k \<le> x then 0 else Suc k)"

text \<open>The greedy variant: \<open>topv, topi = output.data.topk(1)\<close> in place of the draw.\<close>

definition sample_greedy ::
  "RNN \<Rightarrow> string list \<Rightarrow> (nat \<Rightarrow> nat \<Rightarrow> bool) \<Rightarrow> string \<Rightarrow> string \<Rightarrow> error + string" where
  "sample_greedy rnn all_categories masks category start_letter =
     sample_with (\<lambda>i output. topk1 output) rnn all_categories masks category start_letter"

subsection \<open>Notions used to state the properties\<close>

text \<open>The row of length \<open>n\<close> with a single \<open>1\<close>, at position \<open>k\<close>.\<close>

definition one_hot :: "nat \<Rightarrow> nat \<Rightarrow> real list" where
  "one_hot n k = (zeros n)[k := 1]"

text \<open>The cell as the specification describes it: the three affine maps composed, with
  no shape check. \<open>spec_outputs\<close> unrolls it over the positions \<open>is\<close> of a sequence and
  collects the log-probability rows.\<close>

definition spec_cell ::
  "RNN \<Rightarrow> (nat \<Rightarrow> bool) \<Rightarrow> real list \<Rightarrow> real list \<Rightarrow> real list \<Rightarrow> real list \<times> real list" where
  "spec_cell rnn zeroed cat inp hidden =
     (let z = cat @ inp @ hidden in
      (LogSoftmax (nn_Dropout (dropout rnn) (training rnn) zeroed
         (affine (o2o rnn) (affine (i2o rnn) z @ affine (i2h rnn) z))),
       affine (i2h rnn) z))"

fun spec_outputs ::
  "RNN \<Rightarrow> (nat \<Rightarrow> nat \<Rightarrow> bool) \<Rightarrow> real list \<Rightarrow> real list list \<Rightarrow> nat list \<Rightarrow> real list \<Rightarrow>
   real list list" where
  "spec_outputs rnn masks cat_t input_t [] hidden = []"
| "spec_outputs rnn masks cat_t input_t (i # is) hidden =
     fst (spec_cell rnn (masks i) cat_t (input_t ! i) hidden) #
     spec_outputs rnn masks cat_t input_t is
       (snd (spec_cell rnn (masks i) cat_t (input_t ! i) hidden))"

text \<open>The indices a run of the sampler draws, in order, one per call of the cell: the
  loop of \<open>sample\<close> with the drawn index recorded in place of the letter appended. The
  run stops after the first end-of-sequence index it records.\<close>

fun drawn_loop ::
  "RNN \<Rightarrow> (nat \<Rightarrow> nat \<Rightarrow> bool) \<Rightarrow> (nat \<Rightarrow> real list \<Rightarrow> nat) \<Rightarrow> real list \<Rightarrow> nat list \<Rightarrow>
   real list list \<Rightarrow> real list \<Rightarrow> error + nat list" where
  "drawn_loop rnn masks pick category_tensor [] inp hidden = Inr []"
| "drawn_loop rnn masks pick category_tensor (i # is) inp hidden =
     (case py_get inp 0 of
        Inl e \<Rightarrow> Inl e
      | Inr x \<Rightarrow>
          (case forward rnn (masks i) category_tensor x hidden of
             Inl e \<Rightarrow> Inl e
           | Inr (output, hidden') \<Rightarrow>
               (let topi = pick i output in
                if topi = n_letters - 1 then Inr [topi]
                else
                  (case py_get all_letters (int topi) of
                     Inl e \<Rightarrow> Inl e
                   | Inr letter \<Rightarrow>
                       (case inputTensor [letter] of
                          Inl e \<Rightarrow> Inl e
                        | Inr inp' \<Rightarrow>
                            (case drawn_loop rnn masks pick category_tensor is inp' hidden' of
                               Inl e \<Rightarrow> Inl e
                             | Inr ks \<Rightarrow> Inr (topi # ks)))))))"

definition sample_draws ::
  "(nat \<Rightarrow> real list \<Rightarrow> nat) \<Rightarrow> RNN \<Rightarrow> string list \<Rightarrow> (nat \<Rightarrow> nat \<Rightarrow> bool) \<Rightarrow> string \<Rightarrow> string \<Rightarrow>
   error + nat list" where
  "sample_draws pick rnn all_categories masks category start_letter =
     (case categoryTensor all_categories category of
        Inl e \<Rightarrow> Inl e
      | Inr category_tensor \<Rightarrow>
          (case inputTensor start_letter of
             Inl e \<Rightarrow> Inl e
           | Inr inp \<Rightarrow>
               drawn_loop rnn masks pick category_tensor [0..<max_length] inp
                 (init_hidden rnn)))"

text \<open>A draw by inversion, for concrete runs: the first position at which the cumulative
  distribution exceeds \<open>u\<close> (the last position when none does).\<close>

fun inverse_cdf :: "real \<Rightarrow> real list \<Rightarrow> nat" where
  "inverse_cdf u [] = 0"
| "inverse_cdf u [p] = 0"
| "inverse_cdf u (p # q # ps) = (if u < p then 0 else Suc (inverse_cdf (u - p) (q # ps)))"

text \<open>Models for concrete runs: a layer with zero weights, which returns its bias, and a
  model over the notebook's alphabet built from such layers, with one hidden unit, the
  dropout probability \<open>0.1\<close> of the constructor and its training mode.\<close>

definition const_Linear :: "nat \<Rightarrow> real list \<Rightarrow> Linear" where
  "const_Linear n b =
     \<lparr>in_features = n, out_features = length b, weight = replicate (length b) (zeros n),
      bias = b\<rparr>"

definition const_RNN :: "nat \<Rightarrow> real list \<Rightarrow> RNN" where
  "const_RNN c b =
     \<lparr>cat_size = c, input_size = n_letters, hidden_size = 1, output_size = n_letters,
      i2h = const_Linear (c + n_letters + 1) [0],
      i2o = const_Linear (c + n_letters + 1) (zeros n_letters),
      o2o = const_Linear (n_letters + 1) b,
      dropout = 1 / 10, training = True\<rparr>"

text \<open>A model with non-zero weights, for concrete runs: its hidden unit reads the entry
  of the input row that stands for the letter \<open>a\<close>, and its first output entry reads the
  new hidden unit; every other weight and every bias is zero.\<close>

definition select_RNN :: "nat \<Rightarrow> RNN" where
  "select_RNN c =
     \<lparr>cat_size = c, input_size = n_letters, hidden_size = 1, output_size = n_letters,
      i2h = \<lparr>in_features = c + n_letters + 1, out_features = 1,
             weight = [one_hot (c + n_letters + 1) c], bias = [0]\<rparr>,
      i2o = const_Linear (c + n_letters + 1) (zeros n_letters),
      o2o = \<lparr>in_features = n_letters + 1, out_features = n_letters,
             weight = one_hot (n_letters + 1) n_letters #
                      replicate (n_letters - 1) (zeros (n_letters + 1)),
             bias = zeros n_letters\<rparr>,
      dropout = 1 / 10, training = True\<rparr>"

text \<open>The cell with the dropout layer removed (\<open>forward\<close> without the line
  \<open>output = self.dropout(output)\<close>), and the cell with the layer written out as it acts in
  training mode.\<close>

definition forward_no_dropout ::
  "RNN \<Rightarrow> real list \<Rightarrow> real list \<Rightarrow> real list \<Rightarrow> error + (real list \<times> real list)" where
  "forward_no_dropout rnn cat inp hidden =
     (let input_combined = cat @ inp @ hidden in
      case Linear_forward (i2h rnn) input_combined of
        Inl e \<Rightarrow> Inl e
      | Inr hidden' \<Rightarrow>
          (case Linear_forward (i2o rnn) input_combined of
             Inl e \<Rightarrow> Inl e
           | Inr output \<Rightarrow>
               (case Linear_forward (o2o rnn) (output @ hidden') of
                  Inl e \<Rightarrow> Inl e
                | Inr output' \<Rightarrow> Inr (LogSoftmax output', hidden'))))"

definition forward_dropout ::
  "RNN \<Rightarrow> (nat \<Rightarrow> bool) \<Rightarrow> real list \<Rightarrow> real list \<Rightarrow> real list \<Rightarrow> error + (real list \<times> real list)" where
  "forward_dropout rnn zeroed cat inp hidden =
     (let input_combined = cat @ inp @ hidden in
      case Linear_forward (i2h rnn) input_combined of
        Inl e \<Rightarrow> Inl e
      | Inr hidden' \<Rightarrow>
          (case Linear_forward (i2o rnn) input_combined of
             Inl e \<Rightarrow> Inl e
           | Inr output \<Rightarrow>
               (case Linear_forward (o2o rnn) (output @ hidden') of
                  Inl e \<Rightarrow> Inl e
                | Inr output' \<Rightarrow>
                    Inr (LogSoftmax
                           (map (\<lambda>j. if zeroed j then 0 else output' ! j / (1 - dropout rnn))
                              [0..<length output']),
                         hidden'))))"

text \<open>The loop and the body of \<open>sample\<close> over an arbitrary cell: \<open>cell i\<close> is the
  function called in place of \<open>rnn\<close> in iteration \<open>i\<close>.\<close>

fun sample_loop_over ::
  "(nat \<Rightarrow> real list \<Rightarrow> real list \<Rightarrow> real list \<Rightarrow> error + (real list \<times> real list)) \<Rightarrow>
   (nat \<Rightarrow> real list \<Rightarrow> nat) \<Rightarrow> real list \<Rightarrow> nat list \<Rightarrow>
   real list list \<Rightarrow> real list \<Rightarrow> string \<Rightarrow> error + string" where
  "sample_loop_over cell pick category_tensor [] inp hidden output_name = Inr output_name"
| "sample_loop_over cell pick category_tensor (i # is) inp hidden output_name =
     (case py_get inp 0 of
        Inl e \<Rightarrow> Inl e
      | Inr x \<Rightarrow>
          (case cell i category_tensor x hidden of
             Inl e \<Rightarrow> Inl e
           | Inr (output, hidden') \<Rightarrow>
               (let topi = pick i output in
                if topi = n_letters - 1 then Inr output_name
                else
                  (case py_get all_letters (int topi) of
                     Inl e \<Rightarrow> Inl e
                   | Inr letter \<Rightarrow>
                       (case inputTensor [letter] of
                          Inl e \<Rightarrow> Inl e
                        | Inr inp' \<Rightarrow>
                            sample_loop_over cell pick category_tensor is inp' hidden'
                              (output_name @ [letter]))))))"

definition sample_over ::
  "(nat \<Rightarrow> real list \<Rightarrow> real list \<Rightarrow> real list \<Rightarrow> error + (real list \<times> real list)) \<Rightarrow>
   RNN \<Rightarrow> string list \<Rightarrow> (nat \<Rightarrow> real list \<Rightarrow> nat) \<Rightarrow> string \<Rightarrow> string \<Rightarrow> error + string" where
  "sample_over cell rnn all_categories multinomial category start_letter =
     (case categoryTensor all_categories category of
        Inl e \<Rightarrow> Inl e
      | Inr category_tensor \<Rightarrow>
          (case inputTensor start_letter of
             Inl e \<Rightarrow> Inl e
           | Inr inp \<Rightarrow>
               sample_loop_over cell (\<lambda>i output. multinomial i (map exp output))
                 category_tensor [0..<max_length] inp (init_hidden rnn) start_letter))"

text \<open>The position \<open>inputTensor\<close> writes for a symbol: its position in the alphabet, the
  end-of-sequence slot for a symbol outside it.\<close>

definition letter_slot :: "char \<Rightarrow> nat" where
  "letter_slot c = (if c \<in> set all_letters then nat (str_find all_letters c) else EOS)"

subsection \<open>The encoder: one-hot category vectors\<close>

lemma py_index_nat [simp]: "k < n \<Longrightarrow> py_index n (int k) = Inr k"
  by (simp add: py_index_def)

lemma list_index_notin: "x \<notin> set xs \<Longrightarrow> list_index xs x = Inl ValueError"
  by (induction xs) auto

lemma list_index_in:
  "x \<in> set xs \<Longrightarrow> \<exists>k. list_index xs x = Inr k \<and> k < length xs \<and> xs ! k = x \<and> x \<notin> set (take k xs)"
proof (induction xs)
  case Nil
  then show ?case by simp
next
  case (Cons y ys)
  show ?case
  proof (cases "y = x")
    case True
    then show ?thesis by simp
  next
    case False
    with Cons.prems have "x \<in> set ys" by simp
    from Cons.IH [OF this] obtain k where
      "list_index ys x = Inr k" "k < length ys" "ys ! k = x" "x \<notin> set (take k ys)"
      by blast
    with False show ?thesis by simp
  qed
qed

text \<open>
  Claim C5. For a category of the ordered category list, \<open>categoryTensor\<close> returns the
  vector of length \<open>n_categories\<close> whose only \<open>1\<close> stands at the category's (first)
  position in the list, every other entry being \<open>0\<close>; for a category that is not in the
  list it fails with \<open>ValueError\<close>.
\<close>

theorem categoryTensor_one_hot:
  "(category \<in> set all_categories \<longrightarrow>
      (\<exists>li. li < length all_categories \<and> all_categories ! li = category \<and>
            category \<notin> set (take li all_categories) \<and>
            categoryTensor all_categories category = Inr (one_hot (length all_categories) li) \<and>
            length (one_hot (length all_categories) li) = length all_categories \<and>
            (\<forall>j < length all_categories.
               one_hot (length all_categories) li ! j = (if j = li then 1 else 0)))) \<and>
   (category \<notin> set all_categories \<longrightarrow>
      categoryTensor all_categories category = Inl ValueError)"
proof (intro conjI impI)
  assume "category \<in> set all_categories"
  from list_index_in [OF this] obtain li where
    li: "list_index all_categories category = Inr li" "li < length all_categories"
      "all_categories ! li = category" "category \<notin> set (take li all_categories)"
    by blast
  have "categoryTensor all_categories category = Inr (one_hot (length all_categories) li)"
    using li(1,2) by (simp add: categoryTensor_def set_item_def zeros_def one_hot_def)
  moreover have "\<forall>j < length all_categories.
      one_hot (length all_categories) li ! j = (if j = li then 1 else 0)"
    using li(2) by (simp add: one_hot_def zeros_def nth_list_update)
  moreover have "length (one_hot (length all_categories) li) = length all_categories"
    by (simp add: one_hot_def zeros_def)
  ultimately show "\<exists>li. li < length all_categories \<and> all_categories ! li = category \<and>
            category \<notin> set (take li all_categories) \<and>
            categoryTensor all_categories category = Inr (one_hot (length all_categories) li) \<and>
            length (one_hot (length all_categories) li) = length all_categories \<and>
            (\<forall>j < length all_categories.
               one_hot (length all_categories) li ! j = (if j = li then 1 else 0))"
    using li(2,3,4) by blast
next
  assume "category \<notin> set all_categories"
  then show "categoryTensor all_categories category = Inl ValueError"
    by (simp add: categoryTensor_def list_index_notin)
qed

theorem categoryTensor_one_hot_witness:
  "''German'' \<in> set [''Czech'', ''German'', ''Arabic''] \<and>
   categoryTensor [''Czech'', ''German'', ''Arabic''] ''German'' = Inr [0, 1, 0] \<and>
   ''Klingon'' \<notin> set [''Czech'', ''German'', ''Arabic''] \<and>
   categoryTensor [''Czech'', ''German'', ''Arabic''] ''Klingon'' = Inl ValueError"
  using categoryTensor_one_hot [of "''German''" "[''Czech'', ''German'', ''Arabic'']"]
    categoryTensor_one_hot [of "''Klingon''" "[''Czech'', ''German'', ''Arabic'']"]
  by (simp add: categoryTensor_def set_item_def zeros_def py_index_def)

subsection \<open>The encoder: symbols and targets\<close>

lemma str_find_range: "- 1 \<le> str_find s c \<and> str_find s c < int (length s)"
  by (induction s) (auto simp: Let_def)

lemma str_find_notin: "c \<notin> set s \<Longrightarrow> str_find s c = - 1"
  by (induction s) (auto simp: Let_def)

lemma str_find_in: "c \<in> set s \<Longrightarrow> 0 \<le> str_find s c \<and> s ! nat (str_find s c) = c"
proof (induction s)
  case Nil
  then show ?case by simp
next
  case (Cons x xs)
  show ?case
  proof (cases "x = c")
    case True
    then show ?thesis by simp
  next
    case False
    with Cons.prems have "c \<in> set xs" by simp
    from Cons.IH [OF this] have "0 \<le> str_find xs c" "xs ! nat (str_find xs c) = c" by simp_all
    with False show ?thesis by (simp add: Let_def nat_add_distrib)
  qed
qed

lemma length_all_letters: "length all_letters = 58"
  by (simp add: all_letters_def)

lemma n_letters_eq: "n_letters = 59"
  by (simp add: n_letters_def length_all_letters)

lemma EOS_eq: "EOS = 58"
  by (simp add: EOS_def n_letters_eq)

lemma set_item_find:
  "set_item (zeros n_letters) (str_find all_letters c) 1 = Inr (one_hot n_letters (letter_slot c))"
proof (cases "c \<in> set all_letters")
  case True
  from str_find_in [OF True] str_find_range [of all_letters c]
  have "0 \<le> str_find all_letters c" "str_find all_letters c < 58"
    by (simp_all add: length_all_letters)
  then show ?thesis using True
    by (simp add: set_item_def py_index_def zeros_def one_hot_def letter_slot_def n_letters_eq)
next
  case False
  then show ?thesis
    by (simp add: str_find_notin set_item_def py_index_def zeros_def one_hot_def letter_slot_def
        n_letters_eq EOS_eq)
qed

lemma inputTensor_loop_inv:
  "k \<le> length line \<Longrightarrow>
   inputTensor_loop line [k..<length line]
     (map (\<lambda>c. one_hot n_letters (letter_slot c)) (take k line) @
      replicate (length line - k) (zeros n_letters))
   = Inr (map (\<lambda>c. one_hot n_letters (letter_slot c)) line)"
proof (induction "length line - k" arbitrary: k)
  case 0
  then show ?case by simp
next
  case (Suc d)
  let ?f = "\<lambda>c. one_hot n_letters (letter_slot c)"
  let ?n = "length line"
  from Suc.hyps have k: "k < ?n" and d: "d = ?n - Suc k" by simp_all
  have upt: "[k..<?n] = k # [Suc k..<?n]" using k by (simp add: upt_conv_Cons)
  have rep: "replicate (?n - k) (zeros n_letters) = zeros n_letters # replicate (?n - Suc k) (zeros n_letters)"
    using k by (simp add: Suc_diff_Suc flip: replicate_Suc)
  have get1: "py_get line (int k) = Inr (line ! k)" using k by (simp add: py_get_def)
  have get2: "py_get (map ?f (take k line) @ replicate (?n - k) (zeros n_letters)) (int k)
      = Inr (zeros n_letters)"
    using k by (simp add: py_get_def nth_append rep)
  have upd: "(map ?f (take k line) @ replicate (?n - k) (zeros n_letters))[k := ?f (line ! k)]
      = map ?f (take (Suc k) line) @ replicate (?n - Suc k) (zeros n_letters)"
    using k by (simp add: rep list_update_append take_Suc_conv_app_nth)
  from Suc.hyps(1) [OF d] k
  have IH: "inputTensor_loop line [Suc k..<?n]
      (map ?f (take (Suc k) line) @ replicate (?n - Suc k) (zeros n_letters)) = Inr (map ?f line)"
    by simp
  show ?case
    by (simp only: upt inputTensor_loop.simps get1 get2 sum.case set_item_find upd IH)
qed

lemma inputTensor_eq:
  "inputTensor line = Inr (map (\<lambda>c. one_hot n_letters (letter_slot c)) line)"
  using inputTensor_loop_inv [of 0 line] by (simp add: inputTensor_def)

lemma letter_indexes_of_eq:
  "list_all (\<lambda>li. li < length line) lis \<Longrightarrow>
   letter_indexes_of line lis = Inr (map (\<lambda>li. str_find all_letters (line ! li)) lis)"
  by (induction lis) (simp_all add: py_get_def)

lemma targetTensor_eq:
  "targetTensor line = Inr (map (str_find all_letters) (tl line) @ [int EOS])"
proof -
  have "list_all (\<lambda>li. li < length line) [1..<length line]"
    by (simp add: list_all_iff)
  then have "letter_indexes_of line [1..<length line]
      = Inr (map (\<lambda>li. str_find all_letters (line ! li)) [1..<length line])"
    by (rule letter_indexes_of_eq)
  moreover have "map (\<lambda>li. str_find all_letters (line ! li)) [1..<length line]
      = map (str_find all_letters) (tl line)"
    by (rule nth_equalityI) (simp_all add: nth_tl)
  ultimately show ?thesis
    by (simp add: targetTensor_def EOS_def n_letters_def)
qed

text \<open>
  Claim C10. \<open>inputTensor\<close> is total: for every string it returns one one-hot row per
  symbol and raises nothing. For a symbol outside the alphabet \<open>all_letters.find\<close> returns
  \<open>-1\<close>, the index \<open>-1\<close> of a row of \<open>n_letters\<close> entries is its last position, and so the
  symbol is encoded at the end-of-sequence slot; a symbol of the alphabet is encoded at
  its position in \<open>all_letters\<close>.
\<close>

theorem inputTensor_total:
  "inputTensor line = Inr (map (\<lambda>letter. one_hot n_letters (letter_slot letter)) line) \<and>
   (\<forall>letter. letter \<notin> set all_letters \<longrightarrow>
      str_find all_letters letter = - 1 \<and>
      py_index n_letters (- 1) = Inr EOS \<and>
      letter_slot letter = EOS) \<and>
   (\<forall>letter. letter \<in> set all_letters \<longrightarrow>
      letter_slot letter < length all_letters \<and> all_letters ! letter_slot letter = letter)"
proof (intro conjI allI impI)
  show "inputTensor line = Inr (map (\<lambda>letter. one_hot n_letters (letter_slot letter)) line)"
    by (rule inputTensor_eq)
next
  fix letter assume "letter \<notin> set all_letters"
  then show "str_find all_letters letter = - 1" by (rule str_find_notin)
next
  show "py_index n_letters (- 1) = Inr EOS"
    by (simp add: py_index_def n_letters_eq EOS_eq)
next
  fix letter assume "letter \<notin> set all_letters"
  then show "letter_slot letter = EOS" by (simp add: letter_slot_def)
next
  fix letter assume a: "letter \<in> set all_letters"
  from str_find_in [OF a] str_find_range [of all_letters letter]
  show "letter_slot letter < length all_letters" using a by (simp add: letter_slot_def nat_less_iff)
next
  fix letter assume a: "letter \<in> set all_letters"
  from str_find_in [OF a] show "all_letters ! letter_slot letter = letter"
    using a by (simp add: letter_slot_def)
qed

theorem inputTensor_total_witness:
  "CHR ''!'' \<notin> set all_letters \<and> CHR ''a'' \<in> set all_letters \<and>
   inputTensor ''a!'' = Inr [one_hot 59 0, one_hot 59 58] \<and>
   str_find all_letters CHR ''!'' = - 1 \<and>
   py_index n_letters (- 1) = Inr EOS \<and>
   all_letters ! letter_slot CHR ''a'' = CHR ''a''"
proof -
  have a: "CHR ''!'' \<notin> set all_letters" by (simp add: all_letters_def)
  have a': "CHR ''a'' \<in> set all_letters" by (simp add: all_letters_def)
  have b: "letter_slot CHR ''a'' = 0" by (simp add: letter_slot_def all_letters_def)
  from inputTensor_total [of "''a!''"] a a' b show ?thesis
    by (auto simp: n_letters_eq EOS_eq)
qed

lemma encoders_return:
  "\<exists>tensor target.
     inputTensor line = Inr tensor \<and> targetTensor line = Inr target \<and>
     length tensor = length line \<and>
     (\<forall>li < length line. line ! li \<notin> set all_letters \<longrightarrow>
        tensor ! li = one_hot n_letters EOS \<and> (0 < li \<longrightarrow> target ! (li - 1) = - 1))"
proof -
  let ?tensor = "map (\<lambda>c. one_hot n_letters (letter_slot c)) line"
  let ?target = "map (str_find all_letters) (tl line) @ [int EOS]"
  have "\<forall>li < length line. line ! li \<notin> set all_letters \<longrightarrow>
        ?tensor ! li = one_hot n_letters EOS \<and> (0 < li \<longrightarrow> ?target ! (li - 1) = - 1)"
  proof (intro allI impI)
    fix li assume li: "li < length line" and out: "line ! li \<notin> set all_letters"
    have 1: "?tensor ! li = one_hot n_letters EOS"
      using li out by (simp add: letter_slot_def)
    have 2: "0 < li \<longrightarrow> ?target ! (li - 1) = - 1"
    proof
      assume pos: "0 < li"
      then have "li - 1 < length (tl line)" using li by simp
      then have "?target ! (li - 1) = str_find all_letters (tl line ! (li - 1))"
        by (simp add: nth_append)
      also have "tl line ! (li - 1) = line ! li" using pos li by (simp add: nth_tl)
      finally show "?target ! (li - 1) = - 1" using out by (simp add: str_find_notin)
    qed
    from 1 2 show "?tensor ! li = one_hot n_letters EOS \<and> (0 < li \<longrightarrow> ?target ! (li - 1) = - 1)" ..
  qed
  then show ?thesis
    by (intro exI [of _ ?tensor] exI [of _ ?target]) (simp add: inputTensor_eq targetTensor_eq)
qed

text \<open>
  Claim C1, as stated: for every string of alphabet symbols, the empty string included, the
  target sequence has as many entries as the input matrix has rows. On the empty string
  the target sequence is \<open>[EOS]\<close> and the input matrix has no row.
\<close>

theorem target_length_empty_counterexample:
  "set '''' \<subseteq> set all_letters \<and>
   inputTensor '''' = Inr [] \<and> targetTensor '''' = Inr [int EOS] \<and>
   length [int EOS] \<noteq> length ([] :: real list list)"
  by (simp add: inputTensor_eq targetTensor_eq)

text \<open>
  Claim C1, amended: for every non-empty string, the target sequence of \<open>targetTensor\<close>
  has as many entries as the matrix of \<open>inputTensor\<close> has rows, and its final entry is the
  end-of-sequence index \<open>n_letters - 1\<close>. For the empty string the target sequence is the
  single entry \<open>n_letters - 1\<close> and the matrix has no rows.
\<close>

theorem target_length_nonempty:
  "(line \<noteq> [] \<longrightarrow>
     (\<exists>tensor target.
        inputTensor line = Inr tensor \<and> targetTensor line = Inr target \<and>
        length tensor = length line \<and> length target = length tensor \<and>
        target = map (str_find all_letters) (tl line) @ [int n_letters - 1] \<and>
        last target = int n_letters - 1)) \<and>
   inputTensor [] = Inr [] \<and> targetTensor [] = Inr [int n_letters - 1]"
  by (simp add: inputTensor_eq targetTensor_eq EOS_eq n_letters_eq)

theorem target_length_nonempty_witness:
  "''Chan'' \<noteq> [] \<and> set ''Chan'' \<subseteq> set all_letters \<and>
   (\<exists>tensor target.
     inputTensor ''Chan'' = Inr tensor \<and> targetTensor ''Chan'' = Inr target \<and>
     length tensor = 4 \<and> length target = 4 \<and> target = [7, 0, 13, 58])"
proof -
  have "set ''Chan'' \<subseteq> set all_letters" by (simp add: all_letters_def)
  moreover have "map (str_find all_letters) ''han'' = [7, 0, 13]"
    by (simp add: all_letters_def)
  ultimately show ?thesis
    using target_length_nonempty [of "''Chan''"] by (auto simp: n_letters_eq)
qed

subsection \<open>The cell and the training step\<close>

lemma length_affine: "wf_Linear L \<Longrightarrow> length (affine L x) = out_features L"
  by (simp add: wf_Linear_def affine_def)

lemma length_nn_Dropout [simp]: "length (nn_Dropout p t m xs) = length xs"
  by (simp add: nn_Dropout_def)

lemma length_LogSoftmax [simp]: "length (LogSoftmax xs) = length xs"
  by (simp add: LogSoftmax_def)

lemma forward_Inr:
  "forward rnn m c x h = Inr r \<Longrightarrow> r = spec_cell rnn m c x h"
  by (auto simp: forward_def spec_cell_def Linear_forward_def Let_def split: if_splits)

lemma forward_eq:
  assumes "RNN_shapes rnn"
    and "length c + length x + length h = cat_size rnn + input_size rnn + hidden_size rnn"
  shows "forward rnn m c x h = Inr (spec_cell rnn m c x h)"
  using assms
  by (simp add: forward_def spec_cell_def Linear_forward_def Let_def RNN_shapes_def length_affine)

lemma length_spec_cell:
  assumes "RNN_shapes rnn"
  shows "length (fst (spec_cell rnn m c x h)) = output_size rnn"
    and "length (snd (spec_cell rnn m c x h)) = hidden_size rnn"
  using assms by (simp_all add: spec_cell_def Let_def RNN_shapes_def length_affine)

lemma length_spec_outputs [simp]: "length (spec_outputs rnn masks c inp is h) = length is"
  by (induction "is" arbitrary: h) simp_all

lemma NLLLoss_Inr: "NLLLoss output t = Inr l \<Longrightarrow> t \<noteq> - 100 \<Longrightarrow> l = - (output ! nat t)"
  by (auto simp: NLLLoss_def split: if_splits)

lemma py_get_Inr_nat: "py_get xs (int i) = Inr x \<Longrightarrow> i < length xs \<and> x = xs ! i"
  by (auto simp: py_get_def py_index_def split: if_splits)

lemma train_loop_Inr:
  "train_loop rnn masks c inp tgt is st = Inr st' \<Longrightarrow>
   list_all (\<lambda>i. i < length tgt \<longrightarrow> tgt ! i \<noteq> - 100) is \<Longrightarrow>
   snd (snd st') = snd (snd st) +
     sum_list (map2 (\<lambda>out i. - (out ! nat (tgt ! i)))
       (spec_outputs rnn masks c inp is (fst (snd st))) is)"
proof (induction "is" arbitrary: st)
  case Nil
  then show ?case by simp
next
  case (Cons i "is")
  from Cons.prems(1) obtain x where x: "py_get inp (int i) = Inr x"
    by (auto split: sum.splits)
  then have xi: "x = inp ! i" by (simp add: py_get_Inr_nat)
  from Cons.prems(1) x obtain outp hidden where
    f: "forward rnn (masks i) c x (fst (snd st)) = Inr (outp, hidden)"
    by (auto split: sum.splits)
  then have cell: "spec_cell rnn (masks i) c (inp ! i) (fst (snd st)) = (outp, hidden)"
    using forward_Inr xi by metis
  from Cons.prems(1) x f obtain t where t: "py_get tgt (int i) = Inr t"
    by (auto split: sum.splits)
  then have ti: "i < length tgt" "t = tgt ! i" by (simp_all add: py_get_Inr_nat)
  from Cons.prems(1) x f t obtain l where l: "NLLLoss outp t = Inr l"
    by (auto split: sum.splits)
  from Cons.prems(2) ti have "t \<noteq> - 100" by simp
  with l have lv: "l = - (outp ! nat (tgt ! i))" using ti(2) by (simp add: NLLLoss_Inr)
  from Cons.prems(1) x f t l have
    rest: "train_loop rnn masks c inp tgt is (outp, hidden, snd (snd st) + l) = Inr st'"
    by simp
  from Cons.prems(2) have "list_all (\<lambda>i. i < length tgt \<longrightarrow> tgt ! i \<noteq> - 100) is" by simp
  from Cons.IH [OF rest this] show ?case
    by (simp add: cell lv)
qed

lemma map2_upt: "length xs = n \<Longrightarrow> map2 f xs [0..<n] = map (\<lambda>i. f (xs ! i) i) [0..<n]"
  by (rule nth_equalityI) simp_all

lemma train_Inr:
  assumes "train rnn masks c inp tgt = Inr (output, loss)" and "- 100 \<notin> set tgt"
  shows "loss = sum_list (map (\<lambda>i. - (spec_outputs rnn masks c inp [0..<length tgt]
                                      (init_hidden rnn) ! i ! nat (tgt ! i)))
                     [0..<length tgt]) / real (length tgt)"
proof -
  from assms(1) obtain o' h' a' where
    loop: "train_loop rnn masks c inp tgt [0..<length tgt] ([], init_hidden rnn, 0) = Inr (o', h', a')"
    and loss: "loss = a' / real (length tgt)"
    by (auto simp: train_def split: sum.splits if_splits)
  have "list_all (\<lambda>i. i < length tgt \<longrightarrow> tgt ! i \<noteq> - 100) [0..<length tgt]"
    using assms(2) by (auto simp: list_all_iff in_set_conv_nth)
  from train_loop_Inr [OF loop this] have
    "a' = sum_list (map2 (\<lambda>out i. - (out ! nat (tgt ! i)))
       (spec_outputs rnn masks c inp [0..<length tgt] (init_hidden rnn)) [0..<length tgt])"
    by simp
  also have "map2 (\<lambda>out i. - (out ! nat (tgt ! i)))
       (spec_outputs rnn masks c inp [0..<length tgt] (init_hidden rnn)) [0..<length tgt]
     = map (\<lambda>i. - (spec_outputs rnn masks c inp [0..<length tgt] (init_hidden rnn) ! i
                      ! nat (tgt ! i))) [0..<length tgt]"
    by (rule map2_upt) simp
  finally show ?thesis using loss by simp
qed

lemma train_loop_succeeds:
  assumes "RNN_shapes rnn" and "length c = cat_size rnn"
  shows "length h = hidden_size rnn \<Longrightarrow>
   list_all (\<lambda>i. i < length inp \<and> length (inp ! i) = input_size rnn \<and> i < length tgt \<and>
                 0 \<le> tgt ! i \<and> tgt ! i < int (output_size rnn)) is \<Longrightarrow>
   \<exists>st'. train_loop rnn masks c inp tgt is (out, h, a) = Inr st'"
proof (induction "is" arbitrary: out h a)
  case Nil
  then show ?case by simp
next
  case (Cons i "is")
  from Cons.prems(2) have i: "i < length inp" "length (inp ! i) = input_size rnn"
    "i < length tgt" "0 \<le> tgt ! i" "tgt ! i < int (output_size rnn)"
    and rest: "list_all (\<lambda>i. i < length inp \<and> length (inp ! i) = input_size rnn \<and>
                 i < length tgt \<and> 0 \<le> tgt ! i \<and> tgt ! i < int (output_size rnn)) is"
    by simp_all
  let ?r = "spec_cell rnn (masks i) c (inp ! i) h"
  have f: "forward rnn (masks i) c (inp ! i) h = Inr (fst ?r, snd ?r)"
    using forward_eq [OF assms(1), of c "inp ! i" h "masks i"] assms(2) Cons.prems(1) i(2)
    by simp
  have lo: "length (fst ?r) = output_size rnn" and lh: "length (snd ?r) = hidden_size rnn"
    using length_spec_cell [OF assms(1)] by simp_all
  have nll: "NLLLoss (fst ?r) (tgt ! i) = Inr (- (fst ?r ! nat (tgt ! i)))"
    using i(4,5) lo by (simp add: NLLLoss_def)
  from Cons.IH [OF lh rest] obtain st' where
    "train_loop rnn masks c inp tgt is (fst ?r, snd ?r, a + - (fst ?r ! nat (tgt ! i))) = Inr st'"
    by blast
  then show ?case using i(1,3) f nll by (cases st') (simp add: py_get_def case_prod_beta)
qed

lemma sum_list_zero_products: "sum_list (map2 (*) (replicate n (0::real)) x) = 0"
proof (induction n arbitrary: x)
  case 0
  then show ?case by simp
next
  case (Suc n)
  then show ?case by (cases x) simp_all
qed

lemma dot_zeros [simp]: "dot (zeros n) x = 0"
  by (simp add: dot_def zeros_def sum_list_zero_products)

lemma map2_replicate_left: "map2 f (replicate (length b) z) b = map (f z) b"
  by (induction b) simp_all

lemma affine_const [simp]: "affine (const_Linear n b) x = b"
proof -
  have "map ((+) 0) b = b" by (induction b) simp_all
  then show ?thesis by (simp add: affine_def const_Linear_def map2_replicate_left)
qed

lemma wf_const_Linear [simp]: "wf_Linear (const_Linear n b)"
  by (simp add: wf_Linear_def const_Linear_def list_all_iff zeros_def)

lemma RNN_shapes_const: "length b = n_letters \<Longrightarrow> RNN_shapes (const_RNN c b)"
  by (simp add: RNN_shapes_def const_RNN_def) (simp add: const_Linear_def zeros_def)

lemma spec_cell_const:
  "spec_cell (const_RNN c b) m cat x h = (LogSoftmax (nn_Dropout (1 / 10) True m b), [0])"
  by (simp add: spec_cell_def const_RNN_def)

lemma forward_const:
  assumes "length b = n_letters" and "length cat + length x + length h = c + n_letters + 1"
  shows "forward (const_RNN c b) m cat x h = Inr (LogSoftmax (nn_Dropout (1 / 10) True m b), [0])"
proof -
  have "length cat + length x + length h =
      cat_size (const_RNN c b) + input_size (const_RNN c b) + hidden_size (const_RNN c b)"
    using assms(2) by (simp add: const_RNN_def)
  from forward_eq [OF RNN_shapes_const [OF assms(1)] this] show ?thesis
    by (simp add: spec_cell_const)
qed

text \<open>
  Claim C9. One training step on the empty string raises: the encoders return an input
  matrix without rows and the one-entry target sequence \<open>[EOS]\<close>, and the first iteration
  of \<open>train\<close> reads \<open>input_t[0]\<close>, an \<open>IndexError\<close> of the indexing operation itself. Nothing
  validates the string before (an unknown category raises \<open>ValueError\<close> first).
\<close>

theorem train_empty_string_faults:
  "train rnn masks cat_t [] [int EOS] = Inl IndexError \<and>
   inputTensor '''' = Inr [] \<and> targetTensor '''' = Inr [int EOS] \<and>
   train_step rnn all_categories masks (category, '''') =
     (if category \<in> set all_categories then Inl IndexError else Inl ValueError)"
proof -
  have t: "train rnn masks c [] [int EOS] = Inl IndexError" for c
    by (simp add: train_def py_get_def py_index_def)
  have e: "inputTensor '''' = Inr []" "targetTensor '''' = Inr [int EOS]"
    by (simp_all add: inputTensor_eq targetTensor_eq)
  have "train_step rnn all_categories masks (category, '''') =
     (if category \<in> set all_categories then Inl IndexError else Inl ValueError)"
  proof (cases "category \<in> set all_categories")
    case True
    from list_index_in [OF True] obtain li where
      "list_index all_categories category = Inr li" "li < length all_categories" by blast
    then have "categoryTensor all_categories category = Inr (one_hot (length all_categories) li)"
      by (simp add: categoryTensor_def set_item_def zeros_def one_hot_def)
    then show ?thesis using True
      by (simp add: train_step_def random_training_example_def e t)
  next
    case False
    then show ?thesis
      by (simp add: train_step_def random_training_example_def categoryTensor_def list_index_notin)
  qed
  with t e show ?thesis by simp
qed

lemma categoryTensor_length:
  "categoryTensor cats category = Inr cat_t \<Longrightarrow> length cat_t = length cats"
  by (auto simp: categoryTensor_def set_item_def zeros_def split: sum.splits)

lemma categoryTensor_in:
  "category \<in> set cats \<Longrightarrow> \<exists>cat_t. categoryTensor cats category = Inr cat_t \<and> length cat_t = length cats"
proof -
  assume "category \<in> set cats"
  from list_index_in [OF this] obtain li where
    "list_index cats category = Inr li" "li < length cats" by blast
  then show ?thesis
    by (simp add: categoryTensor_def set_item_def zeros_def)
qed

lemma str_find_alphabet:
  "c \<in> set all_letters \<Longrightarrow> 0 \<le> str_find all_letters c \<and> str_find all_letters c < int n_letters"
  using str_find_in [of c all_letters] str_find_range [of all_letters c]
  by (simp add: n_letters_def)

text \<open>
  Claim C3. The loss a training step reports is the sum, over the positions of the
  encoded target sequence, of the negative log-likelihood of the target index in the
  cell's log-probability row at that position, divided by the number of target entries.
  A step reports a loss on every non-empty line of alphabet symbols of a known category
  (for a model of the notebook's shapes).
\<close>

theorem train_reports_mean_nll:
  "(train_step rnn all_categories masks (category, line) = Inr (outp, loss) \<longrightarrow>
      (\<exists>cat_t input_t target_t.
         categoryTensor all_categories category = Inr cat_t \<and>
         inputTensor line = Inr input_t \<and> targetTensor line = Inr target_t \<and>
         loss = sum_list (map (\<lambda>i. - (spec_outputs rnn masks cat_t input_t [0..<length target_t]
                                        (init_hidden rnn) ! i ! nat (target_t ! i)))
                          [0..<length target_t])
                / real (length target_t))) \<and>
   (RNN_shapes rnn \<and> cat_size rnn = length all_categories \<and> input_size rnn = n_letters \<and>
    output_size rnn = n_letters \<and> category \<in> set all_categories \<and> line \<noteq> [] \<and>
    set line \<subseteq> set all_letters \<longrightarrow>
      (\<exists>outp loss. train_step rnn all_categories masks (category, line) = Inr (outp, loss)))"
proof (intro conjI impI)
  let ?inp = "map (\<lambda>c. one_hot n_letters (letter_slot c)) line"
  let ?tgt = "map (str_find all_letters) (tl line) @ [int EOS]"
  assume run: "train_step rnn all_categories masks (category, line) = Inr (outp, loss)"
  then obtain cat_t where ct: "categoryTensor all_categories category = Inr cat_t"
    by (auto simp: train_step_def random_training_example_def split: sum.splits)
  with run have tr: "train rnn masks cat_t ?inp ?tgt = Inr (outp, loss)"
    by (simp add: train_step_def random_training_example_def inputTensor_eq targetTensor_eq)
  have "\<forall>t \<in> set ?tgt. - 1 \<le> t"
    using str_find_range [of all_letters] by auto
  then have "- 100 \<notin> set ?tgt" by fastforce
  from train_Inr [OF tr this] ct
  show "\<exists>cat_t input_t target_t.
         categoryTensor all_categories category = Inr cat_t \<and>
         inputTensor line = Inr input_t \<and> targetTensor line = Inr target_t \<and>
         loss = sum_list (map (\<lambda>i. - (spec_outputs rnn masks cat_t input_t [0..<length target_t]
                                        (init_hidden rnn) ! i ! nat (target_t ! i)))
                          [0..<length target_t])
                / real (length target_t)"
    by (simp add: inputTensor_eq targetTensor_eq)
next
  let ?inp = "map (\<lambda>c. one_hot n_letters (letter_slot c)) line"
  let ?tgt = "map (str_find all_letters) (tl line) @ [int EOS]"
  assume "RNN_shapes rnn \<and> cat_size rnn = length all_categories \<and> input_size rnn = n_letters \<and>
    output_size rnn = n_letters \<and> category \<in> set all_categories \<and> line \<noteq> [] \<and>
    set line \<subseteq> set all_letters"
  then have shapes: "RNN_shapes rnn" and sizes: "cat_size rnn = length all_categories"
    "input_size rnn = n_letters" "output_size rnn = n_letters"
    and known: "category \<in> set all_categories" and ne: "line \<noteq> []"
    and alpha: "set line \<subseteq> set all_letters" by simp_all
  from categoryTensor_in [OF known] obtain cat_t where
    ct: "categoryTensor all_categories category = Inr cat_t" "length cat_t = length all_categories"
    by blast
  have len: "length ?tgt = length line" using ne by simp
  have "list_all (\<lambda>i. i < length ?inp \<and> length (?inp ! i) = input_size rnn \<and> i < length ?tgt \<and>
                 0 \<le> ?tgt ! i \<and> ?tgt ! i < int (output_size rnn)) [0..<length ?tgt]"
    unfolding list_all_iff
  proof
    fix i assume "i \<in> set [0..<length ?tgt]"
    then have "i < length ?tgt" unfolding set_upt atLeastLessThan_iff by (rule conjunct2)
    then have i: "i < length line" unfolding len .
    have r: "0 \<le> ?tgt ! i \<and> ?tgt ! i < int n_letters"
    proof (cases "i < length (tl line)")
      case True
      then have "tl line ! i \<in> set (tl line)" by simp
      then have "tl line ! i \<in> set all_letters" using alpha ne
        by (metis list.set_sel(2) subsetD)
      from str_find_alphabet [OF this] True show ?thesis by (simp add: nth_append)
    next
      case False
      with i have "i = length (tl line)" by simp
      then show ?thesis by (simp add: nth_append EOS_eq n_letters_eq)
    qed
    show "i < length ?inp \<and> length (?inp ! i) = input_size rnn \<and> i < length ?tgt \<and>
                 0 \<le> ?tgt ! i \<and> ?tgt ! i < int (output_size rnn)"
      using i r len sizes by (simp add: one_hot_def zeros_def)
  qed
  from train_loop_succeeds [OF shapes _ _ this, of cat_t "init_hidden rnn" masks "[]" 0] ct(2) sizes(1)
  obtain st' where
    "train_loop rnn masks cat_t ?inp ?tgt [0..<length ?tgt] ([], init_hidden rnn, 0) = Inr st'"
    by (auto simp: init_hidden_def zeros_def)
  then have "\<exists>outp loss. train rnn masks cat_t ?inp ?tgt = Inr (outp, loss)"
    by (cases st') (simp add: train_def)
  then show "\<exists>outp loss. train_step rnn all_categories masks (category, line) = Inr (outp, loss)"
    by (simp add: train_step_def random_training_example_def inputTensor_eq targetTensor_eq ct(1))
qed

lemma nn_Dropout_zeros [simp]: "nn_Dropout p t m (zeros n) = zeros n"
  by (auto simp: nn_Dropout_def zeros_def intro: nth_equalityI)

lemma LogSoftmax_zeros: "LogSoftmax (zeros n) = replicate n (- ln (real n))"
  by (simp add: LogSoftmax_def zeros_def sum_list_replicate)

subsection \<open>The cell: structure and dropout\<close>

lemma nn_Dropout_eval [simp]: "nn_Dropout p False m xs = xs"
  by (simp add: nn_Dropout_def)

lemma nn_Dropout_nth:
  "j < length xs \<Longrightarrow> nn_Dropout p True m xs ! j = (if m j then 0 else xs ! j / (1 - p))"
  by (simp add: nn_Dropout_def)

lemma zeros_update_zero [simp]: "(zeros n)[k := 0] = zeros n"
  by (cases "k < n") (simp_all add: zeros_def list_update_same_conv list_update_beyond)

lemma nn_Dropout_spike:
  "nn_Dropout p True m ((zeros n)[k := v]) = (zeros n)[k := (if m k then 0 else v / (1 - p))]"
proof (rule nth_equalityI)
  show "length (nn_Dropout p True m ((zeros n)[k := v])) =
      length ((zeros n)[k := (if m k then 0 else v / (1 - p))])"
    by (simp add: nn_Dropout_def)
next
  fix i assume "i < length (nn_Dropout p True m ((zeros n)[k := v]))"
  then have i: "i < n" by (simp add: nn_Dropout_def zeros_def)
  show "nn_Dropout p True m ((zeros n)[k := v]) ! i =
      (zeros n)[k := (if m k then 0 else v / (1 - p))] ! i"
  proof (cases "i = k")
    case True
    with i show ?thesis by (simp add: nn_Dropout_def zeros_def)
  next
    case False
    with i show ?thesis by (simp add: nn_Dropout_def zeros_def)
  qed
qed

lemma const_RNN_fields [simp]:
  "cat_size (const_RNN c b) = c" "input_size (const_RNN c b) = n_letters"
  "hidden_size (const_RNN c b) = 1" "output_size (const_RNN c b) = n_letters"
  "i2h (const_RNN c b) = const_Linear (c + n_letters + 1) [0]"
  "i2o (const_RNN c b) = const_Linear (c + n_letters + 1) (zeros n_letters)"
  "o2o (const_RNN c b) = const_Linear (n_letters + 1) b"
  "dropout (const_RNN c b) = 1 / 10" "training (const_RNN c b)"
  by (simp_all add: const_RNN_def)

lemma length_zeros [simp]: "length (zeros n) = n"
  by (simp add: zeros_def)

lemma length_one_hot [simp]: "length (one_hot n k) = n"
  by (simp add: one_hot_def)

lemma sum_list_update_real:
  "k < length (ys :: real list) \<Longrightarrow> sum_list (ys[k := w]) = sum_list ys - ys ! k + w"
proof (induction ys arbitrary: k)
  case Nil
  then show ?case by simp
next
  case (Cons y ys)
  then show ?case by (cases k) simp_all
qed

lemma sum_exp_spike:
  "k < n \<Longrightarrow> sum_list (map exp ((zeros n)[k := v])) = real n - 1 + exp v"
  by (simp add: map_update sum_list_update_real zeros_def sum_list_replicate)

lemma LogSoftmax_nth:
  "j < length xs \<Longrightarrow> LogSoftmax xs ! j = xs ! j - ln (sum_list (map exp xs))"
  by (simp add: LogSoftmax_def)

text \<open>
  Claim C2, amended. For every category vector, input-symbol vector and hidden vector of
  the model's sizes, one step of the cell returns exactly the pair
  \<open>(log_softmax (dropout (o2o (concat (i2o z) (i2h z)))), i2h z)\<close> with
  \<open>z = concat cat inp hidden\<close>, where the dropout layer is the identity in evaluation mode
  and, in training mode (the mode the constructor sets and the notebook never leaves),
  replaces entry \<open>j\<close> by \<open>0\<close> when the mask it draws zeroes \<open>j\<close> and divides it by \<open>1 - p\<close>
  otherwise. The new hidden vector is a function of the inputs and the weights; the
  log-probability row is a function of the inputs, the weights and the mask drawn.
\<close>

theorem forward_structure:
  assumes "RNN_shapes rnn" and "length cat = cat_size rnn" and "length inp = input_size rnn"
    and "length hidden = hidden_size rnn"
  shows "forward rnn zeroed cat inp hidden =
           Inr (LogSoftmax (nn_Dropout (dropout rnn) (training rnn) zeroed
                  (affine (o2o rnn)
                     (affine (i2o rnn) (cat @ inp @ hidden) @
                      affine (i2h rnn) (cat @ inp @ hidden)))),
                affine (i2h rnn) (cat @ inp @ hidden)) \<and>
         (\<not> training rnn \<longrightarrow>
            forward rnn zeroed cat inp hidden =
              Inr (LogSoftmax (affine (o2o rnn)
                     (affine (i2o rnn) (cat @ inp @ hidden) @
                      affine (i2h rnn) (cat @ inp @ hidden))),
                   affine (i2h rnn) (cat @ inp @ hidden))) \<and>
         (training rnn \<longrightarrow>
            (\<forall>j < output_size rnn.
               nn_Dropout (dropout rnn) (training rnn) zeroed
                 (affine (o2o rnn)
                    (affine (i2o rnn) (cat @ inp @ hidden) @
                     affine (i2h rnn) (cat @ inp @ hidden))) ! j =
               (if zeroed j then 0
                else affine (o2o rnn)
                       (affine (i2o rnn) (cat @ inp @ hidden) @
                        affine (i2h rnn) (cat @ inp @ hidden)) ! j / (1 - dropout rnn))))"
proof -
  have "length cat + length inp + length hidden =
      cat_size rnn + input_size rnn + hidden_size rnn"
    using assms(2-4) by simp
  from forward_eq [OF assms(1) this]
  have f: "forward rnn zeroed cat inp hidden = Inr (spec_cell rnn zeroed cat inp hidden)" .
  have len: "length (affine (o2o rnn)
                    (affine (i2o rnn) (cat @ inp @ hidden) @
                     affine (i2h rnn) (cat @ inp @ hidden))) = output_size rnn"
    using assms(1) by (simp add: RNN_shapes_def length_affine)
  show ?thesis
    using f len by (simp add: spec_cell_def Let_def nn_Dropout_nth)
qed

theorem forward_structure_witness:
  "RNN_shapes (const_RNN 1 ((zeros n_letters)[0 := 9 / 10])) \<and>
   length [1::real] = cat_size (const_RNN 1 ((zeros n_letters)[0 := 9 / 10])) \<and>
   length (one_hot n_letters 26) = input_size (const_RNN 1 ((zeros n_letters)[0 := 9 / 10])) \<and>
   length [0::real] = hidden_size (const_RNN 1 ((zeros n_letters)[0 := 9 / 10])) \<and>
   training (const_RNN 1 ((zeros n_letters)[0 := 9 / 10])) \<and>
   forward (const_RNN 1 ((zeros n_letters)[0 := 9 / 10])) (\<lambda>j. False) [1] (one_hot n_letters 26) [0]
     = Inr (LogSoftmax ((zeros n_letters)[0 := 1]), [0])"
proof -
  let ?rnn = "const_RNN 1 ((zeros n_letters)[0 := 9 / 10])"
  have h: "RNN_shapes ?rnn" "length [1::real] = cat_size ?rnn"
    "length (one_hot n_letters 26) = input_size ?rnn" "length [0::real] = hidden_size ?rnn"
    by (simp_all add: RNN_shapes_const)
  have t: "training ?rnn" by simp
  from forward_structure [OF h, of "\<lambda>j. False"] h t show ?thesis
    by (simp add: nn_Dropout_spike)
qed

text \<open>
  Claim C2, as stated: the step is a pure function of its inputs and the weights. With the
  same weights and the same inputs, two masks of the dropout layer give two different
  log-probability rows.
\<close>

theorem forward_not_pure_counterexample:
  "RNN_init (const_RNN 1 ((zeros n_letters)[0 := 9 / 10])) \<and>
   forward (const_RNN 1 ((zeros n_letters)[0 := 9 / 10])) (\<lambda>j. False) [1] (one_hot n_letters 26) [0]
     = Inr (LogSoftmax ((zeros n_letters)[0 := 1]), [0]) \<and>
   forward (const_RNN 1 ((zeros n_letters)[0 := 9 / 10])) (\<lambda>j. j = 0) [1] (one_hot n_letters 26) [0]
     = Inr (LogSoftmax (zeros n_letters), [0]) \<and>
   LogSoftmax ((zeros n_letters)[0 := 1]) \<noteq> LogSoftmax (zeros n_letters)"
proof -
  let ?b = "(zeros n_letters)[0 := 9 / 10]"
  have lb: "length ?b = n_letters" by simp
  have init: "RNN_init (const_RNN 1 ?b)"
    using RNN_shapes_const [OF lb] by (simp add: RNN_init_def)
  have sz: "length [1::real] + length (one_hot n_letters 26) + length [0::real] = 1 + n_letters + 1"
    by simp
  have f1: "forward (const_RNN 1 ?b) (\<lambda>j. False) [1] (one_hot n_letters 26) [0]
     = Inr (LogSoftmax ((zeros n_letters)[0 := 1]), [0])"
    using forward_const [OF lb sz] by (simp add: nn_Dropout_spike)
  have f2: "forward (const_RNN 1 ?b) (\<lambda>j. j = 0) [1] (one_hot n_letters 26) [0]
     = Inr (LogSoftmax (zeros n_letters), [0])"
    using forward_const [OF lb sz] by (simp add: nn_Dropout_spike)
  have "LogSoftmax ((zeros n_letters)[0 := 1]) ! 1 \<noteq> LogSoftmax (zeros n_letters) ! 1"
  proof -
    have a: "LogSoftmax ((zeros n_letters)[0 := 1]) ! 1 = - ln (58 + exp 1)"
      by (simp add: LogSoftmax_nth sum_exp_spike n_letters_eq) (simp add: zeros_def)
    have b: "LogSoftmax (zeros n_letters) ! 1 = - ln 59"
      by (simp add: LogSoftmax_zeros n_letters_eq)
    have "exp (1::real) \<noteq> 1" by simp
    then have "58 + exp (1::real) \<noteq> 59" by simp
    moreover have "0 < 58 + exp (1::real)" by (simp add: add_pos_pos)
    ultimately have "ln (58 + exp (1::real)) \<noteq> ln 59" by (simp add: ln_inj_iff)
    then show ?thesis using a b by simp
  qed
  then have "LogSoftmax ((zeros n_letters)[0 := 1]) \<noteq> LogSoftmax (zeros n_letters)" by metis
  with init f1 f2 show ?thesis by simp
qed

subsection \<open>The sampler\<close>

lemma sample_loop_runs:
  assumes shapes: "RNN_shapes rnn" and ct: "length ct = cat_size rnn"
    and isz: "input_size rnn = n_letters" and osz: "output_size rnn = n_letters"
    and pick: "\<And>i outp. length outp = n_letters \<Longrightarrow> pick i outp < n_letters"
  shows "length row = n_letters \<Longrightarrow> length hidden = hidden_size rnn \<Longrightarrow>
    \<exists>ks. list_all (\<lambda>k. k < EOS) ks \<and>
         (drawn_loop rnn masks pick ct is [row] hidden = Inr ks \<and> length ks = length is \<or>
          drawn_loop rnn masks pick ct is [row] hidden = Inr (ks @ [EOS]) \<and> length ks < length is) \<and>
         sample_loop rnn masks pick ct is [row] hidden name =
           Inr (name @ map (\<lambda>k. all_letters ! k) ks)"
proof (induction "is" arbitrary: row hidden name)
  case Nil
  show ?case by (rule exI [of _ "[]"]) simp
next
  case (Cons i "is")
  let ?r = "spec_cell rnn (masks i) ct row hidden"
  let ?topi = "pick i (fst ?r)"
  have "length ct + length row + length hidden = cat_size rnn + input_size rnn + hidden_size rnn"
    using ct isz Cons.prems by simp
  from forward_eq [OF shapes this]
  have f: "forward rnn (masks i) ct row hidden = Inr (fst ?r, snd ?r)" by simp
  have lo: "length (fst ?r) = n_letters" and lh: "length (snd ?r) = hidden_size rnn"
    using length_spec_cell [OF shapes] osz by simp_all
  have g: "py_get [row] 0 = Inr row" by (simp add: py_get_def py_index_def)
  from pick [OF lo] have bound: "?topi < n_letters" .
  show ?case
  proof (cases "?topi = n_letters - 1")
    case True
    then have "drawn_loop rnn masks pick ct (i # is) [row] hidden = Inr ([] @ [EOS])"
      and "sample_loop rnn masks pick ct (i # is) [row] hidden name = Inr name"
      using f g by (simp_all add: EOS_def Let_def case_prod_beta)
    then show ?thesis by (intro exI [of _ "[]"]) simp
  next
    case False
    with bound have lt: "?topi < EOS" by (simp add: EOS_def)
    then have lt': "?topi < length all_letters" by (simp add: EOS_def n_letters_def)
    let ?letter = "all_letters ! ?topi"
    let ?row' = "one_hot n_letters (letter_slot ?letter)"
    have gl: "py_get all_letters (int ?topi) = Inr ?letter"
      using lt' by (simp add: py_get_def)
    have it: "inputTensor [?letter] = Inr [?row']" by (simp add: inputTensor_eq)
    have lr: "length ?row' = n_letters" by simp
    from Cons.IH [OF lr lh, of "name @ [?letter]"] obtain ks where
      ks: "list_all (\<lambda>k. k < EOS) ks"
      "drawn_loop rnn masks pick ct is [?row'] (snd ?r) = Inr ks \<and> length ks = length is \<or>
       drawn_loop rnn masks pick ct is [?row'] (snd ?r) = Inr (ks @ [EOS]) \<and> length ks < length is"
      "sample_loop rnn masks pick ct is [?row'] (snd ?r) (name @ [?letter]) =
         Inr ((name @ [?letter]) @ map (\<lambda>k. all_letters ! k) ks)"
      by blast
    have s: "sample_loop rnn masks pick ct (i # is) [row] hidden name =
        Inr (name @ map (\<lambda>k. all_letters ! k) (?topi # ks))"
      using f g False gl it ks(3) by (simp add: Let_def case_prod_beta)
    have d: "drawn_loop rnn masks pick ct (i # is) [row] hidden =
        (case drawn_loop rnn masks pick ct is [?row'] (snd ?r) of
           Inl e \<Rightarrow> Inl e | Inr ks \<Rightarrow> Inr (?topi # ks))"
      using f g False gl it by (simp add: Let_def case_prod_beta)
    have "list_all (\<lambda>k. k < EOS) (?topi # ks)" using lt ks(1) by simp
    moreover have
      "drawn_loop rnn masks pick ct (i # is) [row] hidden = Inr (?topi # ks) \<and>
         length (?topi # ks) = length (i # is) \<or>
       drawn_loop rnn masks pick ct (i # is) [row] hidden = Inr ((?topi # ks) @ [EOS]) \<and>
         length (?topi # ks) < length (i # is)"
      using ks(2) d by auto
    ultimately show ?thesis using s by (intro exI [of _ "?topi # ks"]) simp
  qed
qed

text \<open>
  Claim C4. For every known category and every starting symbol of the alphabet (and a
  model of the notebook's shapes), sampling terminates without a fault. The run makes at
  most \<open>max_length\<close> calls of the cell, one per drawn index: either it draws \<open>max_length\<close>
  indices, none of them the end-of-sequence index, or it stops at the first
  end-of-sequence index it draws, after fewer than \<open>max_length\<close> other draws. It returns
  the starting symbol followed by the letters of the indices drawn before the stop; each
  of them is a position of \<open>all_letters\<close>, so the end marker is never in the buffer.
\<close>

theorem sample_terminates:
  assumes "RNN_shapes rnn" and "cat_size rnn = length all_categories"
    and "input_size rnn = n_letters" and "output_size rnn = n_letters"
    and "category \<in> set all_categories" and "c \<in> set all_letters"
    and "valid_multinomial multinomial"
  shows "\<exists>ks. list_all (\<lambda>k. k < EOS) ks \<and> length ks \<le> max_length \<and>
     (sample_draws (\<lambda>i output. multinomial i (map exp output)) rnn all_categories masks
          category [c] = Inr ks \<and> length ks = max_length \<or>
      sample_draws (\<lambda>i output. multinomial i (map exp output)) rnn all_categories masks
          category [c] = Inr (ks @ [EOS]) \<and> length ks < max_length) \<and>
     sample rnn all_categories masks multinomial category [c] =
       Inr (c # map (\<lambda>k. all_letters ! k) ks)"
proof -
  let ?pick = "\<lambda>i output. multinomial i (map exp output)"
  from categoryTensor_in [OF assms(5)] obtain ct where
    ct: "categoryTensor all_categories category = Inr ct" "length ct = length all_categories"
    by blast
  have it: "inputTensor [c] = Inr [one_hot n_letters (letter_slot c)]"
    by (simp add: inputTensor_eq)
  have pick: "\<And>i outp. length outp = n_letters \<Longrightarrow> ?pick i outp < n_letters"
  proof -
    fix i and outp :: "real list"
    assume l: "length outp = n_letters"
    then have "map exp outp \<noteq> []" by (auto simp: n_letters_eq)
    with assms(7) [unfolded valid_multinomial_def, rule_format, of "map exp outp" i]
    have "multinomial i (map exp outp) < length (map exp outp)" .
    then show "?pick i outp < n_letters" using l by simp
  qed
  have lct: "length ct = cat_size rnn" using ct(2) assms(2) by simp
  have "\<exists>ks. list_all (\<lambda>k. k < EOS) ks \<and>
         (drawn_loop rnn masks ?pick ct [0..<max_length] [one_hot n_letters (letter_slot c)]
            (init_hidden rnn) = Inr ks \<and> length ks = length [0..<max_length] \<or>
          drawn_loop rnn masks ?pick ct [0..<max_length] [one_hot n_letters (letter_slot c)]
            (init_hidden rnn) = Inr (ks @ [EOS]) \<and> length ks < length [0..<max_length]) \<and>
         sample_loop rnn masks ?pick ct [0..<max_length] [one_hot n_letters (letter_slot c)]
            (init_hidden rnn) [c] = Inr ([c] @ map (\<lambda>k. all_letters ! k) ks)"
    by (rule sample_loop_runs [OF assms(1) lct assms(3,4) pick]) (simp_all add: init_hidden_def)
  then obtain ks where
    ks: "list_all (\<lambda>k. k < EOS) ks"
      "drawn_loop rnn masks ?pick ct [0..<max_length] [one_hot n_letters (letter_slot c)]
         (init_hidden rnn) = Inr ks \<and> length ks = length [0..<max_length] \<or>
       drawn_loop rnn masks ?pick ct [0..<max_length] [one_hot n_letters (letter_slot c)]
         (init_hidden rnn) = Inr (ks @ [EOS]) \<and> length ks < length [0..<max_length]"
      "sample_loop rnn masks ?pick ct [0..<max_length] [one_hot n_letters (letter_slot c)]
         (init_hidden rnn) [c] = Inr ([c] @ map (\<lambda>k. all_letters ! k) ks)"
    by blast
  from ks(2) have "length ks \<le> max_length" by auto
  moreover from ks(2) have
    "sample_draws ?pick rnn all_categories masks category [c] = Inr ks \<and> length ks = max_length \<or>
     sample_draws ?pick rnn all_categories masks category [c] = Inr (ks @ [EOS]) \<and>
       length ks < max_length"
    by (simp add: sample_draws_def ct(1) it)
  moreover from ks(3) have "sample rnn all_categories masks multinomial category [c] =
       Inr (c # map (\<lambda>k. all_letters ! k) ks)"
    by (simp add: sample_def sample_with_def ct(1) it)
  ultimately show ?thesis using ks(1) by blast
qed

lemma py_get_singleton [simp]: "py_get [row] 0 = Inr row"
  by (simp add: py_get_def py_index_def)

lemma py_get_nat:
  "py_get xs (int k) = (if k < length xs then Inr (xs ! k) else Inl IndexError)"
  by (simp add: py_get_def py_index_def)

lemma sample_loop_const_step:
  assumes "length b = n_letters" and "length ct = c" and "length row = n_letters"
  shows "sample_loop (const_RNN c b) masks pick ct (i # is) [row] [0] name =
     (let topi = pick i (LogSoftmax (nn_Dropout (1 / 10) True (masks i) b)) in
      if topi = n_letters - 1 then Inr name
      else if topi < length all_letters then
        sample_loop (const_RNN c b) masks pick ct is
          [one_hot n_letters (letter_slot (all_letters ! topi))] [0]
          (name @ [all_letters ! topi])
      else Inl IndexError)"
proof -
  have "length ct + length row + length [0::real] = c + n_letters + 1"
    using assms(2,3) by simp
  from forward_const [OF assms(1) this] show ?thesis
    by (simp add: Let_def inputTensor_eq py_get_nat sample_loop.simps drawn_loop.simps)
qed

lemma drawn_loop_const_step:
  assumes "length b = n_letters" and "length ct = c" and "length row = n_letters"
  shows "drawn_loop (const_RNN c b) masks pick ct (i # is) [row] [0] =
     (let topi = pick i (LogSoftmax (nn_Dropout (1 / 10) True (masks i) b)) in
      if topi = n_letters - 1 then Inr [topi]
      else if topi < length all_letters then
        (case drawn_loop (const_RNN c b) masks pick ct is
                [one_hot n_letters (letter_slot (all_letters ! topi))] [0] of
           Inl e \<Rightarrow> Inl e
         | Inr ks \<Rightarrow> Inr (topi # ks))
      else Inl IndexError)"
proof -
  have "length ct + length row + length [0::real] = c + n_letters + 1"
    using assms(2,3) by simp
  from forward_const [OF assms(1) this] show ?thesis
    by (simp add: Let_def inputTensor_eq py_get_nat sample_loop.simps drawn_loop.simps)
qed

declare sample_loop.simps(2) [simp del] drawn_loop.simps(2) [simp del]

lemma init_hidden_const [simp]: "init_hidden (const_RNN c b) = [0]"
  by (simp add: init_hidden_def zeros_def)

lemma upt_max_length:
  "[0..<max_length] = [0, 1, 2, 3, 4, 5, 6, 7, 8, 9, 10, 11, 12, 13, 14, 15, 16, 17, 18, 19]"
  by (simp add: max_length_def upt_rec)

theorem sample_terminates_witness:
  "RNN_shapes (const_RNN 1 (zeros n_letters)) \<and>
   cat_size (const_RNN 1 (zeros n_letters)) = length [''X''] \<and>
   input_size (const_RNN 1 (zeros n_letters)) = n_letters \<and>
   output_size (const_RNN 1 (zeros n_letters)) = n_letters \<and>
   ''X'' \<in> set [''X''] \<and> CHR ''A'' \<in> set all_letters \<and>
   valid_multinomial (\<lambda>i d. if i = 3 then length d - 1 else min 1 (length d - 1)) \<and>
   sample_draws
     (\<lambda>i output. (\<lambda>i d. if i = 3 then length d - 1 else min 1 (length d - 1)) i (map exp output))
     (const_RNN 1 (zeros n_letters)) [''X''] (\<lambda>i j. False) ''X'' ''A'' = Inr [1, 1, 1, 58] \<and>
   sample (const_RNN 1 (zeros n_letters)) [''X''] (\<lambda>i j. False)
     (\<lambda>i d. if i = 3 then length d - 1 else min 1 (length d - 1)) ''X'' ''A'' = Inr ''Abbb''"
proof -
  let ?rnn = "const_RNN 1 (zeros n_letters)"
  let ?M = "\<lambda>i d. if i = 3 then length d - 1 else min 1 (length d - 1 :: nat)"
  have h: "RNN_shapes ?rnn" "cat_size ?rnn = length [''X'']" "input_size ?rnn = n_letters"
    "output_size ?rnn = n_letters" "''X'' \<in> set [''X'']" "CHR ''A'' \<in> set all_letters"
    by (simp_all add: RNN_shapes_const) (simp add: all_letters_def)
  have v: "valid_multinomial ?M"
  proof -
    have "min 1 (length d - 1) < length d" if "d \<noteq> []" for d :: "real list"
      using that by (cases d) simp_all
    then show ?thesis by (simp add: valid_multinomial_def)
  qed
  have ct: "categoryTensor [''X''] ''X'' = Inr [1]"
    by (simp add: categoryTensor_def set_item_def py_index_def zeros_def)
  have d: "sample_draws (\<lambda>i output. ?M i (map exp output)) ?rnn [''X''] (\<lambda>i j. False) ''X'' ''A''
      = Inr [1, 1, 1, 58]"
    by (simp add: sample_draws_def ct inputTensor_eq upt_max_length
        drawn_loop_const_step length_all_letters n_letters_eq)
  from sample_terminates [OF h v, of "\<lambda>i j. False"] obtain ks where
    ks: "sample_draws (\<lambda>i output. ?M i (map exp output)) ?rnn [''X''] (\<lambda>i j. False) ''X'' ''A''
           = Inr ks \<and> length ks = max_length \<or>
         sample_draws (\<lambda>i output. ?M i (map exp output)) ?rnn [''X''] (\<lambda>i j. False) ''X'' ''A''
           = Inr (ks @ [EOS]) \<and> length ks < max_length"
      "sample ?rnn [''X''] (\<lambda>i j. False) ?M ''X'' ''A'' = Inr (CHR ''A'' # map (\<lambda>k. all_letters ! k) ks)"
    by blast
  from ks(1) d have "ks = [1, 1, 1]"
    by (auto simp: max_length_def EOS_eq)
  with ks(2) have "sample ?rnn [''X''] (\<lambda>i j. False) ?M ''X'' ''A'' = Inr ''Abbb''"
    by (simp add: all_letters_def)
  with h v d show ?thesis by simp
qed

subsection \<open>The sampler and the dropout layer\<close>

lemma forward_eval_mode: "\<not> training rnn \<Longrightarrow> forward rnn m = forward rnn m'"
  by (intro ext) (auto simp: forward_def Let_def split: sum.splits)

lemma sample_loop_masks_cong:
  "(\<And>i. i \<in> set is \<Longrightarrow> forward rnn (masks i) = forward rnn (masks' i)) \<Longrightarrow>
   sample_loop rnn masks pick ct is inp hidden name =
   sample_loop rnn masks' pick ct is inp hidden name"
proof (induction "is" arbitrary: inp hidden name)
  case Nil
  show ?case by simp
next
  case (Cons i "is")
  have f: "forward rnn (masks i) = forward rnn (masks' i)"
    by (rule Cons.prems) simp
  have IH: "\<And>inp hidden name. sample_loop rnn masks pick ct is inp hidden name =
      sample_loop rnn masks' pick ct is inp hidden name"
    by (rule Cons.IH) (simp add: Cons.prems)
  show ?case
    by (simp add: sample_loop.simps f IH Let_def cong: sum.case_cong prod.case_cong if_cong)
qed

lemma sample_with_masks_cong:
  assumes "\<not> training rnn \<or> (\<forall>i<max_length. masks i = masks' i)"
  shows "sample_with pick rnn all_categories masks category start_letter =
         sample_with pick rnn all_categories masks' category start_letter"
proof -
  have "forward rnn (masks i) = forward rnn (masks' i)" if "i \<in> set [0..<max_length]" for i
    using assms that forward_eval_mode [of rnn "masks i" "masks' i"] by auto
  then have "sample_loop rnn masks pick ct [0..<max_length] inp hidden name =
      sample_loop rnn masks' pick ct [0..<max_length] inp hidden name" for ct inp hidden name
    by (rule sample_loop_masks_cong)
  then show ?thesis by (simp add: sample_with_def cong: sum.case_cong)
qed

text \<open>
  Claim C7, amended. Greedy decoding is deterministic given the masks of the dropout
  layer: with fixed weights, a fixed category and a fixed starting symbol, two runs in
  which the layer zeroes the same entries at each of the \<open>max_length\<close> steps return the same
  result, and for a model in evaluation mode, where the layer is the identity, every two
  runs do.
\<close>

theorem sample_greedy_deterministic_given_masks:
  "\<not> training rnn \<or> (\<forall>i<max_length. masks i = masks' i) \<Longrightarrow>
   sample_greedy rnn all_categories masks category start_letter =
   sample_greedy rnn all_categories masks' category start_letter"
  unfolding sample_greedy_def by (rule sample_with_masks_cong)

lemma sample_loop_stop:
  assumes "forward rnn (masks i) ct row h = Inr (out, h')" and "pick i out = n_letters - 1"
  shows "sample_loop rnn masks pick ct (i # is) [row] h name = Inr name"
  using assms by (simp add: sample_loop.simps)

lemma sample_loop_repeat:
  assumes cell: "\<And>i row. i \<in> set is \<Longrightarrow> length row = n_letters \<Longrightarrow>
      \<exists>out. forward rnn (masks i) ct row h = Inr (out, h) \<and> pick i out = k"
    and k: "k < length all_letters"
  shows "length row = n_letters \<Longrightarrow>
    sample_loop rnn masks pick ct is [row] h name =
      Inr (name @ replicate (length is) (all_letters ! k))"
  using cell
proof (induction "is" arbitrary: row name)
  case Nil
  show ?case by simp
next
  case (Cons i "is")
  from Cons.prems(2) [of i row] Cons.prems(1) obtain out where
    out: "forward rnn (masks i) ct row h = Inr (out, h)" "pick i out = k"
    by auto
  have ne: "k \<noteq> n_letters - 1" using k by (simp add: n_letters_def)
  have "sample_loop rnn masks pick ct is [one_hot n_letters (letter_slot (all_letters ! k))] h
      (name @ [all_letters ! k]) =
      Inr ((name @ [all_letters ! k]) @ replicate (length is) (all_letters ! k))"
    by (rule Cons.IH) (simp_all add: Cons.prems(2))
  then show ?case
    using out ne k
    by (simp add: sample_loop.simps py_get_nat inputTensor_eq replicate_append_same)
qed

lemma forward_const_eval:
  assumes "length b = n_letters" and "length cat + length x + length h = c + n_letters + 1"
  shows "forward ((const_RNN c b)\<lparr>training := False\<rparr>) m cat x h = Inr (LogSoftmax b, [0])"
proof -
  let ?rnn = "(const_RNN c b)\<lparr>training := False\<rparr>"
  have s: "RNN_shapes ?rnn"
    using RNN_shapes_const [OF assms(1), of c] by (simp add: RNN_shapes_def)
  have "length cat + length x + length h = cat_size ?rnn + input_size ?rnn + hidden_size ?rnn"
    using assms(2) by simp
  from forward_eq [OF s this] show ?thesis
    by (simp add: spec_cell_def)
qed

lemma nn_Dropout_update:
  "nn_Dropout p True m (xs[k := v]) =
     (nn_Dropout p True m xs)[k := (if m k then 0 else v / (1 - p))]"
proof (rule nth_equalityI)
  show "length (nn_Dropout p True m (xs[k := v])) =
      length ((nn_Dropout p True m xs)[k := (if m k then 0 else v / (1 - p))])"
    by simp
next
  fix i assume "i < length (nn_Dropout p True m (xs[k := v]))"
  then have i: "i < length xs" by simp
  show "nn_Dropout p True m (xs[k := v]) ! i =
      (nn_Dropout p True m xs)[k := (if m k then 0 else v / (1 - p))] ! i"
  proof (cases "i = k")
    case True
    with i show ?thesis by (simp add: nn_Dropout_def)
  next
    case False
    with i show ?thesis by (simp add: nn_Dropout_def)
  qed
qed

lemma topk1_less: "xs \<noteq> [] \<Longrightarrow> topk1 xs < length xs"
  by (induction xs rule: topk1.induct) (simp_all add: Let_def)

lemma topk1_shift: "topk1 (map (\<lambda>x. x - c) xs) = topk1 xs"
proof (induction xs rule: topk1.induct)
  case 1
  show ?case by simp
next
  case (2 x)
  show ?case by simp
next
  case (3 x y ys)
  have "topk1 (y # ys) < length (y # ys)" by (rule topk1_less) simp
  then have "map (\<lambda>x. x - c) (y # ys) ! topk1 (y # ys) = (y # ys) ! topk1 (y # ys) - c"
    by (rule nth_map)
  with 3 show ?case by (simp add: Let_def)
qed

lemma topk1_LogSoftmax: "topk1 (LogSoftmax xs) = topk1 xs"
  unfolding LogSoftmax_def by (rule topk1_shift)

lemma topk1_unique_max:
  "k < length xs \<Longrightarrow> (\<And>j. j < length xs \<Longrightarrow> j \<noteq> k \<Longrightarrow> xs ! j < xs ! k) \<Longrightarrow> topk1 xs = k"
proof (induction xs arbitrary: k rule: topk1.induct)
  case 1
  then show ?case by simp
next
  case (2 x)
  then show ?case by simp
next
  case (3 x y ys)
  have less: "topk1 (y # ys) < length (y # ys)" by (rule topk1_less) simp
  show ?case
  proof (cases k)
    case 0
    have "(x # y # ys) ! Suc (topk1 (y # ys)) < (x # y # ys) ! k"
      using less 0 by (intro "3.prems"(2)) simp_all
    then show ?thesis using 0 by (simp add: Let_def)
  next
    case (Suc k')
    have "topk1 (y # ys) = k'"
    proof (rule "3.IH")
      show "k' < length (y # ys)" using "3.prems"(1) Suc by simp
    next
      fix j assume "j < length (y # ys)" and "j \<noteq> k'"
      then have "(x # y # ys) ! Suc j < (x # y # ys) ! k"
        using Suc by (intro "3.prems"(2)) simp_all
      then show "(y # ys) ! j < (y # ys) ! k'" using Suc by simp
    qed
    moreover have "(x # y # ys) ! 0 < (x # y # ys) ! k"
      using Suc "3.prems"(1) by (intro "3.prems"(2)) simp_all
    ultimately show ?thesis using Suc by (simp add: Let_def)
  qed
qed

lemma categoryTensor_X: "categoryTensor [''X''] ''X'' = Inr [1]"
  by (simp add: categoryTensor_def set_item_def py_index_def zeros_def)

lemma replicate_max_length:
  "replicate max_length c =
     [c, c, c, c, c, c, c, c, c, c, c, c, c, c, c, c, c, c, c, c]"
  by (simp add: max_length_def eval_nat_numeral)

lemma init_hidden_const_eval [simp]:
  "init_hidden ((const_RNN c b)\<lparr>training := False\<rparr>) = [0]"
  by (simp add: init_hidden_def zeros_def)

lemma nth_zeros [simp]: "j < n \<Longrightarrow> zeros n ! j = 0"
  by (simp add: zeros_def)

lemma greedy_pick_undropped:
  "topk1 (LogSoftmax (nn_Dropout (1 / 10) True (\<lambda>j. False)
     ((zeros n_letters)[0 := 9 / 20, 58 := 9 / 10]))) = 58"
proof -
  have d: "nn_Dropout (1 / 10) True (\<lambda>j. False) ((zeros n_letters)[0 := 9 / 20, 58 := 9 / 10])
      = (zeros n_letters)[0 := 1 / 2, 58 := 1]"
    by (simp add: nn_Dropout_update)
  have "topk1 ((zeros n_letters)[0 := 1 / 2, 58 := 1]) = 58"
    by (rule topk1_unique_max) (simp_all add: n_letters_eq nth_list_update)
  then show ?thesis by (simp add: topk1_LogSoftmax d)
qed

lemma greedy_pick_dropped:
  "topk1 (LogSoftmax (nn_Dropout (1 / 10) True (\<lambda>j. j = 58)
     ((zeros n_letters)[0 := 9 / 20, 58 := 9 / 10]))) = 0"
proof -
  have d: "nn_Dropout (1 / 10) True (\<lambda>j. j = 58) ((zeros n_letters)[0 := 9 / 20, 58 := 9 / 10])
      = (zeros n_letters)[0 := 1 / 2, 58 := 0]"
    by (simp add: nn_Dropout_update)
  have "topk1 ((zeros n_letters)[0 := 1 / 2, 58 := 0]) = 0"
    by (rule topk1_unique_max) (simp_all add: n_letters_eq nth_list_update)
  then show ?thesis by (simp add: topk1_LogSoftmax d)
qed

text \<open>
  Claim C7, as stated: with fixed weights, category and starting symbol two runs of greedy
  decoding return the same string. On the model below, as the constructor leaves it, the
  run in which the dropout layer zeroes nothing stops at once, and the run in which it
  zeroes the end-of-sequence entry at every step appends \<open>max_length\<close> letters.
\<close>

theorem sample_greedy_not_deterministic_counterexample:
  "RNN_init (const_RNN 1 ((zeros n_letters)[0 := 9 / 20, 58 := 9 / 10])) \<and>
   sample_greedy (const_RNN 1 ((zeros n_letters)[0 := 9 / 20, 58 := 9 / 10])) [''X'']
     (\<lambda>i j. False) ''X'' ''A'' = Inr ''A'' \<and>
   sample_greedy (const_RNN 1 ((zeros n_letters)[0 := 9 / 20, 58 := 9 / 10])) [''X'']
     (\<lambda>i j. j = 58) ''X'' ''A'' = Inr ''Aaaaaaaaaaaaaaaaaaaaa''"
proof -
  let ?b = "(zeros n_letters)[0 := 9 / 20, 58 := 9 / 10]"
  let ?rnn = "const_RNN 1 ?b"
  let ?row = "one_hot n_letters (letter_slot CHR ''A'')"
  have lb: "length ?b = n_letters" by simp
  have init: "RNN_init ?rnn"
    using RNN_shapes_const [OF lb] by (simp add: RNN_init_def)
  have cell: "forward ?rnn m [1] row [0] = Inr (LogSoftmax (nn_Dropout (1 / 10) True m ?b), [0])"
    if "length row = n_letters" for m row
    using that by (intro forward_const [OF lb]) simp
  have p1: "topk1 (LogSoftmax (nn_Dropout (1 / 10) True (\<lambda>j. False) ?b)) = n_letters - 1"
    using greedy_pick_undropped by (simp add: n_letters_eq)
  have "sample_loop ?rnn (\<lambda>i j. False) (\<lambda>i output. topk1 output) [1] [0..<max_length] [?row]
      [0] ''A'' = Inr ''A''"
    unfolding upt_max_length
    by (rule sample_loop_stop [OF cell]) (simp, rule p1)
  then have run1: "sample_greedy ?rnn [''X''] (\<lambda>i j. False) ''X'' ''A'' = Inr ''A''"
    by (simp add: sample_greedy_def sample_with_def categoryTensor_X inputTensor_eq)
  have "sample_loop ?rnn (\<lambda>i j. j = 58) (\<lambda>i output. topk1 output) [1] [0..<max_length] [?row]
      [0] ''A'' = Inr (''A'' @ replicate (length [0..<max_length]) (all_letters ! 0))"
  proof (rule sample_loop_repeat)
    fix i row assume "length (row :: real list) = n_letters"
    from cell [OF this] greedy_pick_dropped
    show "\<exists>out. forward ?rnn (\<lambda>j. j = 58) [1] row [0] = Inr (out, [0]) \<and> topk1 out = 0"
      by blast
  qed (simp_all add: length_all_letters)
  then have run2: "sample_greedy ?rnn [''X''] (\<lambda>i j. j = 58) ''X'' ''A''
      = Inr ''Aaaaaaaaaaaaaaaaaaaaa''"
    by (simp add: sample_greedy_def sample_with_def categoryTensor_X inputTensor_eq
        all_letters_def replicate_max_length)
  from init run1 run2 show ?thesis by simp
qed

theorem sample_greedy_deterministic_given_masks_witness:
  "\<not> training ((const_RNN 1 ((zeros n_letters)[0 := 9 / 20, 58 := 9 / 10]))\<lparr>training := False\<rparr>) \<and>
   sample_greedy ((const_RNN 1 ((zeros n_letters)[0 := 9 / 20, 58 := 9 / 10]))\<lparr>training := False\<rparr>)
     [''X''] (\<lambda>i j. False) ''X'' ''A'' = Inr ''A'' \<and>
   sample_greedy ((const_RNN 1 ((zeros n_letters)[0 := 9 / 20, 58 := 9 / 10]))\<lparr>training := False\<rparr>)
     [''X''] (\<lambda>i j. j = 58) ''X'' ''A'' = Inr ''A''"
proof -
  let ?b = "(zeros n_letters)[0 := 9 / 20, 58 := 9 / 10]"
  let ?rnn = "(const_RNN 1 ?b)\<lparr>training := False\<rparr>"
  let ?row = "one_hot n_letters (letter_slot CHR ''A'')"
  have lb: "length ?b = n_letters" by simp
  have nt: "\<not> training ?rnn" by simp
  have cell: "forward ?rnn m [1] row [0] = Inr (LogSoftmax ?b, [0])"
    if "length row = n_letters" for m row
    using that by (intro forward_const_eval [OF lb]) simp
  have "topk1 (LogSoftmax ?b) = 58"
    unfolding topk1_LogSoftmax
    by (rule topk1_unique_max) (simp_all add: n_letters_eq nth_list_update)
  then have pick: "topk1 (LogSoftmax ?b) = n_letters - 1"
    by (simp add: n_letters_eq)
  have "sample_loop ?rnn (\<lambda>i j. False) (\<lambda>i output. topk1 output) [1] [0..<max_length] [?row]
      [0] ''A'' = Inr ''A''"
    unfolding upt_max_length
    by (rule sample_loop_stop [OF cell]) (simp, rule pick)
  then have run1: "sample_greedy ?rnn [''X''] (\<lambda>i j. False) ''X'' ''A'' = Inr ''A''"
    by (simp add: sample_greedy_def sample_with_def categoryTensor_X inputTensor_eq)
  from sample_greedy_deterministic_given_masks [of ?rnn "\<lambda>i j. False" "\<lambda>i j. j = 58"
      "[''X'']" "''X''" "''A''"] nt run1
  show ?thesis by simp
qed

lemma inverse_cdf_less: "d \<noteq> [] \<Longrightarrow> inverse_cdf u d < length d"
  by (induction u d rule: inverse_cdf.induct) simp_all

lemma valid_inverse_cdf: "valid_multinomial (\<lambda>i d. inverse_cdf u d)"
  by (simp add: valid_multinomial_def inverse_cdf_less)

lemma inverse_cdf_first: "2 \<le> length ps \<Longrightarrow> u < ps ! 0 \<Longrightarrow> inverse_cdf u ps = 0"
proof (cases ps)
  case Nil
  then show "2 \<le> length ps \<Longrightarrow> inverse_cdf u ps = 0" by simp
next
  case (Cons p qs)
  assume "2 \<le> length ps" and "u < ps ! 0"
  with Cons show "inverse_cdf u ps = 0" by (cases qs) simp_all
qed

lemma inverse_cdf_second:
  "3 \<le> length ps \<Longrightarrow> \<not> u < ps ! 0 \<Longrightarrow> u - ps ! 0 < ps ! 1 \<Longrightarrow> inverse_cdf u ps = 1"
proof -
  assume l: "3 \<le> length ps" and a: "\<not> u < ps ! 0" and b: "u - ps ! 0 < ps ! 1"
  from l obtain p q r rs where ps: "ps = p # q # r # rs"
    by (cases ps; cases "tl ps"; cases "tl (tl ps)") auto
  with a b show ?thesis by simp
qed

lemma softmax_nth:
  assumes "j < length xs"
  shows "map exp (LogSoftmax xs) ! j = exp (xs ! j) / sum_list (map exp xs)"
proof -
  have "0 < exp (xs ! j)" by simp
  also have "exp (xs ! j) \<le> sum_list (map exp xs)"
    using assms by (intro member_le_sum_list) auto
  finally have "0 < sum_list (map exp xs)" .
  then show ?thesis using assms by (simp add: LogSoftmax_def exp_diff)
qed

lemma stochastic_pick_dropped:
  "inverse_cdf (1 / 100) (map exp (LogSoftmax (nn_Dropout (1 / 10) True (\<lambda>j. j = 1)
     ((zeros n_letters)[1 := 90])))) = 0"
proof -
  have d: "nn_Dropout (1 / 10) True (\<lambda>j. j = 1) ((zeros n_letters)[1 := 90]) = zeros n_letters"
    by (simp add: nn_Dropout_spike)
  have "map exp (LogSoftmax (zeros n_letters)) ! 0 =
      exp (zeros n_letters ! 0) / sum_list (map exp (zeros n_letters))"
    by (rule softmax_nth) (simp add: n_letters_eq)
  also have "\<dots> = 1 / 59"
    by (simp add: n_letters_eq zeros_def sum_list_replicate)
  finally have "map exp (LogSoftmax (zeros n_letters)) ! 0 = 1 / 59" .
  then show ?thesis
    unfolding d by (intro inverse_cdf_first) (simp_all add: n_letters_eq)
qed

lemma stochastic_pick_eval:
  "inverse_cdf (1 / 100) (map exp (LogSoftmax ((zeros n_letters)[1 := 90]))) = 1"
proof -
  let ?E = "exp (90::real)"
  have E: "91 \<le> ?E" using exp_ge_add_one_self [of "90::real"] by simp
  have s: "sum_list (map exp ((zeros n_letters)[1 := 90])) = 58 + ?E"
    by (simp add: sum_exp_spike n_letters_eq)
  have "map exp (LogSoftmax ((zeros n_letters)[1 := 90])) ! 0 =
      exp ((zeros n_letters)[1 := 90] ! 0) / sum_list (map exp ((zeros n_letters)[1 := 90]))"
    by (rule softmax_nth) (simp add: n_letters_eq)
  then have p0: "map exp (LogSoftmax ((zeros n_letters)[1 := 90])) ! 0 = 1 / (58 + ?E)"
    unfolding s by (simp add: n_letters_eq)
  have "map exp (LogSoftmax ((zeros n_letters)[1 := 90])) ! 1 =
      exp ((zeros n_letters)[1 := 90] ! 1) / sum_list (map exp ((zeros n_letters)[1 := 90]))"
    by (rule softmax_nth) (simp add: n_letters_eq)
  then have p1: "map exp (LogSoftmax ((zeros n_letters)[1 := 90])) ! 1 = ?E / (58 + ?E)"
    unfolding s by (simp add: n_letters_eq)
  have a: "\<not> 1 / 100 < 1 / (58 + ?E)"
    using E by (simp add: field_simps)
  have b: "1 / 100 - 1 / (58 + ?E) < ?E / (58 + ?E)"
  proof -
    have "1 / 100 < ?E / (58 + ?E)" using E by (simp add: field_simps)
    moreover have "0 < 1 / (58 + ?E)" using E by simp
    ultimately show ?thesis by linarith
  qed
  have a': "\<not> 1 / 100 < map exp (LogSoftmax ((zeros n_letters)[1 := 90])) ! 0"
    unfolding p0 by (rule a)
  have b': "1 / 100 - map exp (LogSoftmax ((zeros n_letters)[1 := 90])) ! 0
      < map exp (LogSoftmax ((zeros n_letters)[1 := 90])) ! 1"
    unfolding p0 p1 by (rule b)
  show ?thesis
    by (rule inverse_cdf_second [OF _ a' b']) (simp add: n_letters_eq)
qed

lemma sample_run_training_mode:
  "sample (const_RNN 1 ((zeros n_letters)[1 := 90])) [''X''] (\<lambda>i j. j = 1)
     (\<lambda>i d. inverse_cdf (1 / 100) d) ''X'' ''A'' = Inr ''Aaaaaaaaaaaaaaaaaaaaa''"
proof -
  let ?b = "(zeros n_letters)[1 := 90]"
  let ?rnn = "const_RNN 1 ?b"
  let ?row = "one_hot n_letters (letter_slot CHR ''A'')"
  let ?pick = "\<lambda>i output. inverse_cdf (1 / 100) (map exp output)"
  have lb: "length ?b = n_letters" by simp
  have cell: "forward ?rnn m [1] row [0] = Inr (LogSoftmax (nn_Dropout (1 / 10) True m ?b), [0])"
    if "length row = n_letters" for m row
    using that by (intro forward_const [OF lb]) simp
  have "sample_loop ?rnn (\<lambda>i j. j = 1) ?pick [1] [0..<max_length] [?row] [0] ''A''
      = Inr (''A'' @ replicate (length [0..<max_length]) (all_letters ! 0))"
  proof (rule sample_loop_repeat)
    fix i row assume "length (row :: real list) = n_letters"
    from cell [OF this] stochastic_pick_dropped
    show "\<exists>out. forward ?rnn (\<lambda>j. j = 1) [1] row [0] = Inr (out, [0]) \<and>
        inverse_cdf (1 / 100) (map exp out) = 0"
      by blast
  qed (simp_all add: length_all_letters)
  then show ?thesis
    by (simp add: sample_def sample_with_def categoryTensor_X inputTensor_eq
        all_letters_def replicate_max_length)
qed

lemma sample_run_eval_mode:
  "sample ((const_RNN 1 ((zeros n_letters)[1 := 90]))\<lparr>training := False\<rparr>) [''X'']
     (\<lambda>i j. j = 1) (\<lambda>i d. inverse_cdf (1 / 100) d) ''X'' ''A''
   = Inr ''Abbbbbbbbbbbbbbbbbbbb''"
proof -
  let ?b = "(zeros n_letters)[1 := 90]"
  let ?rnn = "(const_RNN 1 ?b)\<lparr>training := False\<rparr>"
  let ?row = "one_hot n_letters (letter_slot CHR ''A'')"
  let ?pick = "\<lambda>i output. inverse_cdf (1 / 100) (map exp output)"
  have lb: "length ?b = n_letters" by simp
  have cell: "forward ?rnn m [1] row [0] = Inr (LogSoftmax ?b, [0])"
    if "length row = n_letters" for m row
    using that by (intro forward_const_eval [OF lb]) simp
  have "sample_loop ?rnn (\<lambda>i j. j = 1) ?pick [1] [0..<max_length] [?row]
      [0] ''A'' = Inr (''A'' @ replicate (length [0..<max_length]) (all_letters ! 1))"
  proof (rule sample_loop_repeat)
    fix i row assume "length (row :: real list) = n_letters"
    from cell [OF this] stochastic_pick_eval
    show "\<exists>out. forward ?rnn (\<lambda>j. j = 1) [1] row [0] = Inr (out, [0]) \<and>
        inverse_cdf (1 / 100) (map exp out) = 1"
      by blast
  qed (simp_all add: length_all_letters)
  then show ?thesis
    by (simp add: sample_def sample_with_def categoryTensor_X inputTensor_eq
        all_letters_def replicate_max_length)
qed

text \<open>
  Claim C6, as stated: when the sampler invokes the cell, no dropout is applied. On the
  model below, as the constructor leaves it, the sampler (drawing by inversion at
  \<open>u = 1/100\<close>, the dropout layer zeroing entry \<open>1\<close> at every step) returns another name
  than the same sampler with the same draws on the same model in evaluation mode, where
  no dropout is applied.
\<close>

theorem sample_applies_dropout_counterexample:
  "RNN_init (const_RNN 1 ((zeros n_letters)[1 := 90])) \<and>
   valid_multinomial (\<lambda>i d. inverse_cdf (1 / 100) d) \<and>
   sample (const_RNN 1 ((zeros n_letters)[1 := 90])) [''X''] (\<lambda>i j. j = 1)
     (\<lambda>i d. inverse_cdf (1 / 100) d) ''X'' ''A'' = Inr ''Aaaaaaaaaaaaaaaaaaaaa'' \<and>
   sample ((const_RNN 1 ((zeros n_letters)[1 := 90]))\<lparr>training := False\<rparr>) [''X'']
     (\<lambda>i j. j = 1) (\<lambda>i d. inverse_cdf (1 / 100) d) ''X'' ''A''
   = Inr ''Abbbbbbbbbbbbbbbbbbbb''"
proof -
  have "length ((zeros n_letters)[1 := 90]) = n_letters" by simp
  from RNN_shapes_const [OF this] have "RNN_init (const_RNN 1 ((zeros n_letters)[1 := 90]))"
    by (simp add: RNN_init_def)
  with valid_inverse_cdf [of "1 / 100"] sample_run_training_mode sample_run_eval_mode
  show ?thesis by simp
qed

subsection \<open>Training on a symbol outside the alphabet\<close>

lemma train_step_accepts_outside_symbol:
  "train_step (const_RNN 1 (zeros n_letters)) [''X''] (\<lambda>i j. False) (''X'', ''!a'')
     = Inr (replicate 59 (- ln 59), ln 59)"
proof -
  let ?rnn = "const_RNN 1 (zeros n_letters)"
  have a: "CHR ''!'' \<notin> set all_letters" by (simp add: all_letters_def)
  have enc: "inputTensor ''!a'' = Inr [one_hot n_letters 58, one_hot n_letters 0]"
    "targetTensor ''!a'' = Inr [0, 58]"
    by (simp_all add: inputTensor_eq targetTensor_eq letter_slot_def EOS_eq all_letters_def)
  have cell: "forward (const_RNN c (zeros n_letters)) m ct row [0]
      = Inr (replicate 59 (- ln 59), [0])"
    if "length row = n_letters" and "length ct = c" for m row c and ct :: "real list"
  proof -
    have "length ct + length row + length [0::real] = c + n_letters + 1"
      using that by simp
    from forward_const [OF _ this, of "zeros n_letters" m] show ?thesis
      by (simp add: LogSoftmax_zeros n_letters_eq)
  qed
  have "train ?rnn (\<lambda>i j. False) [1] [one_hot n_letters 58, one_hot n_letters 0] [0, 58]
      = Inr (replicate 59 (- ln 59), ln 59)"
    by (simp add: train_def upt_rec py_get_def py_index_def cell NLLLoss_def)
  then show ?thesis
    by (simp add: train_step_def random_training_example_def categoryTensor_X enc)
qed

text \<open>
  Claim C8, as stated: encoding a training string with a symbol outside the alphabet
  (\<open>inputTensor\<close> and \<open>targetTensor\<close>) propagates a fault, and the string is not
  silently accepted. It is: on \<open>"a!"\<close> both encoders return, and on \<open>"!a"\<close> the whole
  training step returns a loss.
\<close>

theorem encoding_outside_alphabet_counterexample:
  "CHR ''!'' \<in> set ''a!'' \<and> CHR ''!'' \<in> set ''!a'' \<and> CHR ''!'' \<notin> set all_letters \<and>
   inputTensor ''a!'' = Inr [one_hot 59 0, one_hot 59 58] \<and>
   targetTensor ''a!'' = Inr [- 1, 58] \<and>
   inputTensor ''!a'' = Inr [one_hot 59 58, one_hot 59 0] \<and>
   targetTensor ''!a'' = Inr [0, 58] \<and>
   train_step (const_RNN 1 (zeros n_letters)) [''X''] (\<lambda>i j. False) (''X'', ''!a'')
     = Inr (replicate 59 (- ln 59), ln 59)"
proof -
  have a: "CHR ''!'' \<notin> set all_letters" by (simp add: all_letters_def)
  have b: "letter_slot CHR ''a'' = 0" by (simp add: letter_slot_def all_letters_def)
  have c: "letter_slot CHR ''!'' = 58" using a by (simp add: letter_slot_def EOS_eq)
  have "inputTensor ''a!'' = Inr [one_hot 59 0, one_hot 59 58]"
    and "inputTensor ''!a'' = Inr [one_hot 59 58, one_hot 59 0]"
    by (simp_all add: inputTensor_eq b c n_letters_eq)
  moreover have "targetTensor ''a!'' = Inr [- 1, 58]"
    by (simp add: targetTensor_eq str_find_notin [OF a] EOS_eq)
  moreover have "targetTensor ''!a'' = Inr [0, 58]"
    by (simp add: targetTensor_eq EOS_eq all_letters_def)
  ultimately show ?thesis using a train_step_accepts_outside_symbol by simp
qed

lemma NLLLoss_minus_one: "NLLLoss outp (- 1) = Inl RuntimeError"
  by (simp add: NLLLoss_def)

lemma train_loop_faults:
  "i \<in> set is \<Longrightarrow> i < length tgt \<Longrightarrow> tgt ! i = - 1 \<Longrightarrow>
   \<exists>e. train_loop rnn masks c inp tgt is st = Inl e"
proof (induction "is" arbitrary: st)
  case Nil
  then show ?case by simp
next
  case (Cons j js)
  show ?case
  proof (cases "j = i")
    case True
    have "py_get tgt (int i) = Inr (- 1)"
      using Cons.prems(2,3) by (simp add: py_get_nat)
    then show ?thesis using True
      by (auto simp: NLLLoss_minus_one split: sum.splits)
  next
    case False
    with Cons.prems(1) have "i \<in> set js" by simp
    from Cons.IH [OF this Cons.prems(2,3)]
    have "\<exists>e. train_loop rnn masks c inp tgt js st' = Inl e" for st' .
    then show ?thesis
      by (auto split: sum.splits)
  qed
qed

lemma train_loop_error_kind:
  assumes "RNN_shapes rnn" and "length c = cat_size rnn"
  shows "length h = hidden_size rnn \<Longrightarrow>
   list_all (\<lambda>i. i < length inp \<and> length (inp ! i) = input_size rnn \<and> i < length tgt) is \<Longrightarrow>
   train_loop rnn masks c inp tgt is (out, h, a) = Inl e \<Longrightarrow> e = RuntimeError"
proof (induction "is" arbitrary: out h a)
  case Nil
  then show ?case by simp
next
  case (Cons i "is")
  from Cons.prems(2) have i: "i < length inp" "length (inp ! i) = input_size rnn" "i < length tgt"
    and rest: "list_all (\<lambda>i. i < length inp \<and> length (inp ! i) = input_size rnn \<and>
                 i < length tgt) is"
    by simp_all
  let ?r = "spec_cell rnn (masks i) c (inp ! i) h"
  have f: "forward rnn (masks i) c (inp ! i) h = Inr (fst ?r, snd ?r)"
    using forward_eq [OF assms(1), of c "inp ! i" h "masks i"] assms(2) Cons.prems(1) i(2)
    by simp
  have lh: "length (snd ?r) = hidden_size rnn"
    using length_spec_cell [OF assms(1)] by simp
  show ?case
  proof (cases "NLLLoss (fst ?r) (tgt ! i)")
    case (Inl e')
    then have "e' = RuntimeError" by (auto simp: NLLLoss_def split: if_splits)
    with Inl Cons.prems(3) i(1,3) f show ?thesis by (simp add: py_get_nat case_prod_beta)
  next
    case (Inr l)
    with Cons.prems(3) i(1,3) f have
      "train_loop rnn masks c inp tgt is (fst ?r, snd ?r, a + l) = Inl e"
      by (simp add: py_get_nat case_prod_beta)
    from Cons.IH [OF lh rest this] show ?thesis .
  qed
qed

lemma train_step_faults:
  assumes "0 < li" and "li < length line" and "line ! li \<notin> set all_letters"
  shows "\<exists>e. train_step rnn all_categories masks (category, line) = Inl e"
proof (cases "categoryTensor all_categories category")
  case (Inl e)
  then show ?thesis by (simp add: train_step_def random_training_example_def)
next
  case (Inr cat_t)
  let ?inp = "map (\<lambda>c. one_hot n_letters (letter_slot c)) line"
  let ?tgt = "map (str_find all_letters) (tl line) @ [int EOS]"
  have lt: "li - 1 < length (tl line)" using assms(1,2) by simp
  then have "?tgt ! (li - 1) = str_find all_letters (tl line ! (li - 1))"
    by (simp add: nth_append)
  also have "tl line ! (li - 1) = line ! li" using assms(1,2) by (simp add: nth_tl)
  finally have bad: "?tgt ! (li - 1) = - 1" using assms(3) by (simp add: str_find_notin)
  have "li - 1 \<in> set [0..<length ?tgt]" "li - 1 < length ?tgt" using lt by simp_all
  from train_loop_faults [OF this bad] obtain e where
    "train_loop rnn masks cat_t ?inp ?tgt [0..<length ?tgt] ([], init_hidden rnn, 0) = Inl e"
    by blast
  then have "train rnn masks cat_t ?inp ?tgt = Inl e" by (simp add: train_def)
  then show ?thesis
    by (simp add: train_step_def random_training_example_def Inr inputTensor_eq targetTensor_eq)
qed

lemma train_step_faults_RuntimeError:
  assumes shapes: "RNN_shapes rnn" and sizes: "cat_size rnn = length all_categories"
    "input_size rnn = n_letters" and known: "category \<in> set all_categories"
    and li: "0 < li" "li < length line" "line ! li \<notin> set all_letters"
  shows "train_step rnn all_categories masks (category, line) = Inl RuntimeError"
proof -
  let ?inp = "map (\<lambda>c. one_hot n_letters (letter_slot c)) line"
  let ?tgt = "map (str_find all_letters) (tl line) @ [int EOS]"
  from categoryTensor_in [OF known] obtain cat_t where
    ct: "categoryTensor all_categories category = Inr cat_t" "length cat_t = length all_categories"
    by blast
  have step: "train_step rnn all_categories masks (category, line) = train rnn masks cat_t ?inp ?tgt"
    by (simp add: train_step_def random_training_example_def ct(1) inputTensor_eq targetTensor_eq)
  from train_step_faults [OF li, of rnn all_categories masks category] obtain e where
    e: "train rnn masks cat_t ?inp ?tgt = Inl e" unfolding step by blast
  then have loop: "train_loop rnn masks cat_t ?inp ?tgt [0..<length ?tgt]
      ([], init_hidden rnn, 0) = Inl e"
    by (auto simp: train_def split: sum.splits if_splits)
  have ne: "line \<noteq> []" using li(2) by auto
  have "list_all (\<lambda>i. i < length ?inp \<and> length (?inp ! i) = input_size rnn \<and> i < length ?tgt)
      [0..<length ?tgt]"
    using ne sizes(2) by (simp add: list_all_iff)
  from train_loop_error_kind [OF shapes _ _ this loop] ct(2) sizes(1)
  have "e = RuntimeError" by (simp add: init_hidden_def)
  with e step show ?thesis by simp
qed

lemma train_step_succeeds:
  assumes shapes: "RNN_shapes rnn" and sizes: "cat_size rnn = length all_categories"
    "input_size rnn = n_letters" "output_size rnn = n_letters"
    and known: "category \<in> set all_categories" and ne: "line \<noteq> []"
    and alpha: "set (tl line) \<subseteq> set all_letters"
  shows "\<exists>outp loss. train_step rnn all_categories masks (category, line) = Inr (outp, loss)"
proof -
  let ?inp = "map (\<lambda>c. one_hot n_letters (letter_slot c)) line"
  let ?tgt = "map (str_find all_letters) (tl line) @ [int EOS]"
  from categoryTensor_in [OF known] obtain cat_t where
    ct: "categoryTensor all_categories category = Inr cat_t" "length cat_t = length all_categories"
    by blast
  have len: "length ?tgt = length line" using ne by simp
  have "list_all (\<lambda>i. i < length ?inp \<and> length (?inp ! i) = input_size rnn \<and> i < length ?tgt \<and>
                 0 \<le> ?tgt ! i \<and> ?tgt ! i < int (output_size rnn)) [0..<length ?tgt]"
    unfolding list_all_iff
  proof
    fix i assume "i \<in> set [0..<length ?tgt]"
    then have "i < length ?tgt" unfolding set_upt atLeastLessThan_iff by (rule conjunct2)
    then have i: "i < length line" unfolding len .
    have r: "0 \<le> ?tgt ! i \<and> ?tgt ! i < int n_letters"
    proof (cases "i < length (tl line)")
      case True
      then have "tl line ! i \<in> set (tl line)" by simp
      then have "tl line ! i \<in> set all_letters" using alpha by blast
      from str_find_alphabet [OF this] True show ?thesis by (simp add: nth_append)
    next
      case False
      with i have "i = length (tl line)" by simp
      then show ?thesis by (simp add: nth_append EOS_eq n_letters_eq)
    qed
    show "i < length ?inp \<and> length (?inp ! i) = input_size rnn \<and> i < length ?tgt \<and>
                 0 \<le> ?tgt ! i \<and> ?tgt ! i < int (output_size rnn)"
      using i r len sizes by simp
  qed
  from train_loop_succeeds [OF shapes _ _ this, of cat_t "init_hidden rnn" masks "[]" 0] ct(2) sizes(1)
  obtain st' where
    "train_loop rnn masks cat_t ?inp ?tgt [0..<length ?tgt] ([], init_hidden rnn, 0) = Inr st'"
    by (auto simp: init_hidden_def)
  then have "\<exists>outp loss. train rnn masks cat_t ?inp ?tgt = Inr (outp, loss)"
    by (cases st') (simp add: train_def)
  then show ?thesis
    by (simp add: train_step_def random_training_example_def inputTensor_eq targetTensor_eq ct(1))
qed

text \<open>
  Claim C8, amended. For every training string with a symbol outside the alphabet the
  encoders themselves return without a fault: \<open>inputTensor\<close> encodes the symbol as the
  one-hot row of the end-of-sequence slot and \<open>targetTensor\<close>, from the second position
  on, as the target index \<open>-1\<close>. The fault comes from the training step: when such a symbol
  stands at any position after the first, one training step on the string raises for every
  model (\<open>RuntimeError\<close> from the loss, for a model of the notebook's shapes and a known
  category), so the string is not silently accepted. Only a string whose symbols after the
  first are all in the alphabet is accepted whatever its first symbol: the training step
  returns a loss.
\<close>

theorem encoding_outside_alphabet:
  "(\<exists>tensor target.
      inputTensor line = Inr tensor \<and> targetTensor line = Inr target \<and>
      length tensor = length line \<and>
      (\<forall>li < length line. line ! li \<notin> set all_letters \<longrightarrow>
         tensor ! li = one_hot n_letters EOS \<and> (0 < li \<longrightarrow> target ! (li - 1) = - 1))) \<and>
   ((\<exists>li. 0 < li \<and> li < length line \<and> line ! li \<notin> set all_letters) \<longrightarrow>
      (\<exists>e. train_step rnn all_categories masks (category, line) = Inl e) \<and>
      (RNN_shapes rnn \<and> cat_size rnn = length all_categories \<and> input_size rnn = n_letters \<and>
       category \<in> set all_categories \<longrightarrow>
         train_step rnn all_categories masks (category, line) = Inl RuntimeError)) \<and>
   (RNN_shapes rnn \<and> cat_size rnn = length all_categories \<and> input_size rnn = n_letters \<and>
    output_size rnn = n_letters \<and> category \<in> set all_categories \<and> line \<noteq> [] \<and>
    set (tl line) \<subseteq> set all_letters \<longrightarrow>
      (\<exists>outp loss. train_step rnn all_categories masks (category, line) = Inr (outp, loss)))"
proof (intro conjI impI)
  show "\<exists>tensor target.
      inputTensor line = Inr tensor \<and> targetTensor line = Inr target \<and>
      length tensor = length line \<and>
      (\<forall>li < length line. line ! li \<notin> set all_letters \<longrightarrow>
         tensor ! li = one_hot n_letters EOS \<and> (0 < li \<longrightarrow> target ! (li - 1) = - 1))"
    by (rule encoders_return)
next
  assume "\<exists>li. 0 < li \<and> li < length line \<and> line ! li \<notin> set all_letters"
  then obtain li where "0 < li" "li < length line" "line ! li \<notin> set all_letters" by blast
  then show "\<exists>e. train_step rnn all_categories masks (category, line) = Inl e"
    by (rule train_step_faults)
next
  assume "\<exists>li. 0 < li \<and> li < length line \<and> line ! li \<notin> set all_letters"
    and "RNN_shapes rnn \<and> cat_size rnn = length all_categories \<and> input_size rnn = n_letters \<and>
       category \<in> set all_categories"
  then obtain li where "0 < li" "li < length line" "line ! li \<notin> set all_letters"
    and "RNN_shapes rnn" "cat_size rnn = length all_categories" "input_size rnn = n_letters"
      "category \<in> set all_categories"
    by blast
  then show "train_step rnn all_categories masks (category, line) = Inl RuntimeError"
    by (intro train_step_faults_RuntimeError [of rnn all_categories category li line])
next
  assume "RNN_shapes rnn \<and> cat_size rnn = length all_categories \<and> input_size rnn = n_letters \<and>
    output_size rnn = n_letters \<and> category \<in> set all_categories \<and> line \<noteq> [] \<and>
    set (tl line) \<subseteq> set all_letters"
  then show "\<exists>outp loss. train_step rnn all_categories masks (category, line) = Inr (outp, loss)"
    by (intro train_step_succeeds) simp_all
qed

theorem encoding_outside_alphabet_witness:
  "(\<exists>li. 0 < li \<and> li < length ''a!'' \<and> ''a!'' ! li \<notin> set all_letters) \<and>
   RNN_shapes (const_RNN 1 (zeros n_letters)) \<and>
   cat_size (const_RNN 1 (zeros n_letters)) = length [''X''] \<and>
   input_size (const_RNN 1 (zeros n_letters)) = n_letters \<and>
   output_size (const_RNN 1 (zeros n_letters)) = n_letters \<and>
   ''X'' \<in> set [''X''] \<and>
   train_step (const_RNN 1 (zeros n_letters)) [''X''] (\<lambda>i j. False) (''X'', ''a!'')
     = Inl RuntimeError \<and>
   ''!a'' \<noteq> [] \<and> set (tl ''!a'') \<subseteq> set all_letters \<and>
   (\<exists>outp loss. train_step (const_RNN 1 (zeros n_letters)) [''X''] (\<lambda>i j. False) (''X'', ''!a'')
      = Inr (outp, loss))"
proof -
  let ?rnn = "const_RNN 1 (zeros n_letters)"
  have bad: "\<exists>li. 0 < li \<and> li < length ''a!'' \<and> ''a!'' ! li \<notin> set all_letters"
    by (rule exI [of _ 1]) (simp add: all_letters_def)
  have m: "RNN_shapes ?rnn" "cat_size ?rnn = length [''X'']" "input_size ?rnn = n_letters"
    "output_size ?rnn = n_letters" "''X'' \<in> set [''X'']"
    by (simp_all add: RNN_shapes_const)
  have ok: "''!a'' \<noteq> []" "set (tl ''!a'') \<subseteq> set all_letters"
    by (simp_all add: all_letters_def)
  from encoding_outside_alphabet [of "''a!''" ?rnn "[''X'']" "\<lambda>i j. False" "''X''"] bad m
  have 1: "train_step ?rnn [''X''] (\<lambda>i j. False) (''X'', ''a!'') = Inl RuntimeError"
    by blast
  from encoding_outside_alphabet [of "''!a''" ?rnn "[''X'']" "\<lambda>i j. False" "''X''"] m ok
  have 2: "\<exists>outp loss. train_step ?rnn [''X''] (\<lambda>i j. False) (''X'', ''!a'') = Inr (outp, loss)"
    by blast
  from bad m ok 1 2 show ?thesis by blast
qed

subsection \<open>A training step on a model with non-zero weights\<close>

lemma sum_list_one_product:
  "k < n \<Longrightarrow> length x = n \<Longrightarrow> sum_list (map2 (*) ((replicate n (0::real))[k := 1]) x) = x ! k"
proof (induction n arbitrary: k x)
  case 0
  then show ?case by simp
next
  case (Suc n)
  then obtain y ys where x: "x = y # ys" by (cases x) auto
  show ?case
  proof (cases k)
    case 0
    then show ?thesis using x by (simp add: sum_list_zero_products)
  next
    case (Suc k')
    with Suc.prems x have "k' < n" "length ys = n" by simp_all
    from Suc.IH [OF this] show ?thesis using Suc x by simp
  qed
qed

lemma dot_one_hot: "k < n \<Longrightarrow> length x = n \<Longrightarrow> dot (one_hot n k) x = x ! k"
  by (simp add: dot_def one_hot_def zeros_def sum_list_one_product)

lemma RNN_shapes_select: "RNN_shapes (select_RNN c)"
  by (simp add: RNN_shapes_def select_RNN_def wf_Linear_def n_letters_eq list_all_iff)
    (simp add: const_Linear_def zeros_def one_hot_def)

lemma map2_zero_rows:
  "map2 (\<lambda>row b. dot row y + b) (replicate n (zeros m)) (replicate n 0) = replicate n 0"
  by (induction n) simp_all

lemma affine_first_row:
  "map2 (\<lambda>row b. dot row y + b) (r # replicate n (zeros m)) (replicate (Suc n) 0) =
     dot r y # replicate n 0"
  by (simp add: map2_zero_rows)

lemma spec_cell_select:
  assumes "length cat = c" and "length x = n_letters" and "length h = 1"
  shows "spec_cell (select_RNN c) m cat x h =
     (LogSoftmax (nn_Dropout (1 / 10) True m ((zeros n_letters)[0 := x ! 0])), [x ! 0])"
proof -
  let ?z = "cat @ x @ h"
  have lz: "length ?z = c + n_letters + 1" using assms by simp
  have h: "affine (i2h (select_RNN c)) ?z = [x ! 0]"
    using assms lz by (simp add: affine_def select_RNN_def dot_one_hot nth_append n_letters_eq)
  have o: "affine (i2o (select_RNN c)) ?z = zeros n_letters"
    by (simp add: select_RNN_def)
  have r: "zeros 59 = 0 # replicate 58 0"
    by (simp add: zeros_def numeral_eq_Suc)
  have a: "affine (o2o (select_RNN c)) y = dot (one_hot 60 59) y # replicate 58 0" for y
    by (simp add: affine_def select_RNN_def n_letters_eq r map2_zero_rows)
  have d: "dot (one_hot 60 59) (zeros n_letters @ [x ! 0]) = x ! 0"
    by (simp add: dot_one_hot nth_append n_letters_eq)
  have "affine (o2o (select_RNN c)) (zeros n_letters @ [x ! 0]) = (x ! 0) # replicate 58 0"
    unfolding a d ..
  also have "\<dots> = (zeros n_letters)[0 := x ! 0]"
    by (simp add: n_letters_eq r)
  finally have oo: "affine (o2o (select_RNN c)) (zeros n_letters @ [x ! 0]) =
      (zeros n_letters)[0 := x ! 0]" .
  show ?thesis
    by (simp add: spec_cell_def Let_def h o oo) (simp add: select_RNN_def)
qed

lemma select_RNN_fields [simp]:
  "cat_size (select_RNN c) = c" "input_size (select_RNN c) = n_letters"
  "hidden_size (select_RNN c) = 1" "output_size (select_RNN c) = n_letters"
  by (simp_all add: select_RNN_def)

text \<open>A run of the training step on three symbols, on the model with non-zero weights: the
  three log-probability rows differ with the input symbol, and the three targets read
  different entries.\<close>

theorem train_reports_mean_nll_witness:
  "RNN_shapes (select_RNN 1) \<and>
   cat_size (select_RNN 1) = length [''X''] \<and>
   input_size (select_RNN 1) = n_letters \<and>
   output_size (select_RNN 1) = n_letters \<and>
   ''X'' \<in> set [''X''] \<and> ''baa'' \<noteq> [] \<and> set ''baa'' \<subseteq> set all_letters \<and>
   targetTensor ''baa'' = Inr [0, 0, 58] \<and>
   (\<exists>outp loss.
      train_step (select_RNN 1) [''X''] (\<lambda>i j. False) (''X'', ''baa'') = Inr (outp, loss) \<and>
      loss = (ln 59 - (10 / 9 - ln (58 + exp (10 / 9))) + ln (58 + exp (10 / 9))) / 3)"
proof -
  let ?rnn = "select_RNN 1"
  let ?masks = "\<lambda>(i::nat) (j::nat). False"
  have hyps: "RNN_shapes ?rnn \<and> cat_size ?rnn = length [''X''] \<and> input_size ?rnn = n_letters \<and>
    output_size ?rnn = n_letters \<and> ''X'' \<in> set [''X''] \<and> ''baa'' \<noteq> [] \<and>
    set ''baa'' \<subseteq> set all_letters"
    by (simp add: RNN_shapes_select) (simp add: all_letters_def)
  with train_reports_mean_nll [of ?rnn "[''X'']" ?masks "''X''" "''baa''"]
  obtain outp loss where
    run: "train_step ?rnn [''X''] ?masks (''X'', ''baa'') = Inr (outp, loss)"
    by blast
  have tgt: "targetTensor ''baa'' = Inr [0, 0, 58]"
    by (simp add: targetTensor_eq EOS_eq all_letters_def)
  have slots: "letter_slot CHR ''a'' = 0" "letter_slot CHR ''b'' = 1"
    by (simp_all add: letter_slot_def all_letters_def)
  have x: "one_hot n_letters 0 ! 0 = 1" "one_hot n_letters (Suc 0) ! 0 = 0"
    by (simp_all add: one_hot_def zeros_def n_letters_eq)
  have cell_b: "spec_cell (select_RNN c) (\<lambda>j. False) ct (one_hot n_letters (Suc 0)) h
      = (LogSoftmax (zeros n_letters), [0])"
    if "length h = Suc 0" and "length ct = c" for h c and ct :: "real list"
    using that by (simp add: spec_cell_select x nn_Dropout_spike)
  have cell_a: "spec_cell (select_RNN c) (\<lambda>j. False) ct (one_hot n_letters 0) h
      = (LogSoftmax ((zeros n_letters)[0 := 10 / 9]), [1])"
    if "length h = Suc 0" and "length ct = c" for h c and ct :: "real list"
    using that by (simp add: spec_cell_select x nn_Dropout_spike)
  have v0: "LogSoftmax (zeros n_letters) ! 0 = - ln 59"
    by (simp add: LogSoftmax_zeros n_letters_eq)
  have v1: "LogSoftmax ((zeros n_letters)[0 := 10 / 9]) ! 0 = 10 / 9 - ln (58 + exp (10 / 9))"
    by (simp add: LogSoftmax_nth sum_exp_spike n_letters_eq)
  have v2: "LogSoftmax ((zeros n_letters)[0 := 10 / 9]) ! 58 = - ln (58 + exp (10 / 9))"
    by (simp add: LogSoftmax_nth sum_exp_spike n_letters_eq)
  from train_reports_mean_nll [of ?rnn "[''X'']" ?masks "''X''" "''baa''" outp loss] run
  obtain cat_t input_t target_t where
    e: "categoryTensor [''X''] ''X'' = Inr cat_t" "inputTensor ''baa'' = Inr input_t"
      "targetTensor ''baa'' = Inr target_t"
    and l: "loss = sum_list (map (\<lambda>i. - (spec_outputs ?rnn ?masks cat_t input_t
                  [0..<length target_t] (init_hidden ?rnn) ! i ! nat (target_t ! i)))
                  [0..<length target_t]) / real (length target_t)"
    by blast
  from e have v: "cat_t = [1]" "target_t = [0, 0, 58]"
    "input_t = [one_hot n_letters (Suc 0), one_hot n_letters 0, one_hot n_letters 0]"
    by (simp_all add: categoryTensor_X inputTensor_eq tgt slots)
  have ih: "init_hidden ?rnn = [0]" by (simp add: init_hidden_def zeros_def)
  have "loss = (ln 59 - (10 / 9 - ln (58 + exp (10 / 9))) + ln (58 + exp (10 / 9))) / 3"
    unfolding l v ih
    by (simp add: upt_rec cell_a cell_b v0 v1 v2)
  with hyps run tgt show ?thesis by blast
qed

subsection \<open>The sampler follows the mode of the model\<close>

lemma sample_loop_over_eq:
  "sample_loop rnn masks pick ct is inp hidden name =
   sample_loop_over (\<lambda>i. forward rnn (masks i)) pick ct is inp hidden name"
proof (induction "is" arbitrary: inp hidden name)
  case Nil
  show ?case by simp
next
  case (Cons i "is")
  show ?case
    by (simp add: sample_loop.simps Cons.IH Let_def
        cong: sum.case_cong prod.case_cong if_cong)
qed

lemma sample_over_eq:
  "sample rnn all_categories masks multinomial category start_letter =
   sample_over (\<lambda>i. forward rnn (masks i)) rnn all_categories multinomial category start_letter"
  by (simp add: sample_def sample_with_def sample_over_def sample_loop_over_eq
      cong: sum.case_cong)

lemma forward_eval_no_dropout: "\<not> training rnn \<Longrightarrow> forward rnn zeroed = forward_no_dropout rnn"
  by (intro ext) (auto simp: forward_def forward_no_dropout_def Let_def split: sum.splits)

lemma forward_training_dropout: "training rnn \<Longrightarrow> forward rnn zeroed = forward_dropout rnn zeroed"
  by (intro ext)
    (auto simp: forward_def forward_dropout_def nn_Dropout_def Let_def split: sum.splits)

lemma nn_Dropout_identity_iff:
  assumes "p \<noteq> 0"
  shows "nn_Dropout p True zeroed xs = xs \<longleftrightarrow> list_all (\<lambda>x. x = 0) xs"
proof
  assume eq: "nn_Dropout p True zeroed xs = xs"
  have "xs ! j = 0" if "j < length xs" for j
  proof -
    from eq have "nn_Dropout p True zeroed xs ! j = xs ! j" by simp
    with that have c: "(if zeroed j then 0 else xs ! j / (1 - p)) = xs ! j"
      by (simp add: nn_Dropout_nth)
    show ?thesis
    proof (cases "zeroed j")
      case True
      with c show ?thesis by simp
    next
      case False
      with c have d: "xs ! j / (1 - p) = xs ! j" by simp
      show ?thesis
      proof (cases "p = 1")
        case True
        with d show ?thesis by simp
      next
        case False
        with d have "xs ! j = xs ! j * (1 - p)" by (simp add: field_simps)
        then have "xs ! j * p = 0" by (simp add: algebra_simps)
        with assms show ?thesis by simp
      qed
    qed
  qed
  then show "list_all (\<lambda>x. x = 0) xs"
    by (auto simp: list_all_iff in_set_conv_nth)
next
  assume "list_all (\<lambda>x. x = 0) xs"
  then have z: "xs ! j = 0" if "j < length xs" for j
    using that by (simp add: list_all_iff)
  show "nn_Dropout p True zeroed xs = xs"
    by (rule nth_equalityI) (simp_all add: nn_Dropout_nth z)
qed

text \<open>
  Claim C6, amended. Dropout follows the mode of the model, not the caller of the cell.
  For a model in evaluation mode the cell applies no dropout, and the sampler returns what
  it returns with the dropout layer removed from the cell, whatever the masks. For a model
  in training mode (the mode the constructor sets; the sampler does not change it and the
  notebook never leaves it) the cell the sampler invokes replaces each entry of the
  projected output by \<open>0\<close> where the mask zeroes it and divides it by \<open>1 - p\<close> elsewhere,
  before the log-softmax; for \<open>p \<noteq> 0\<close> this leaves only an all-zero row unchanged.
\<close>

theorem sample_dropout_follows_mode:
  "(\<not> training rnn \<longrightarrow>
      forward rnn zeroed cat inp hidden = forward_no_dropout rnn cat inp hidden \<and>
      sample rnn all_categories masks multinomial category start_letter =
        sample_over (\<lambda>i. forward_no_dropout rnn) rnn all_categories multinomial category
          start_letter) \<and>
   (training rnn \<longrightarrow>
      forward rnn zeroed cat inp hidden = forward_dropout rnn zeroed cat inp hidden \<and>
      sample rnn all_categories masks multinomial category start_letter =
        sample_over (\<lambda>i. forward_dropout rnn (masks i)) rnn all_categories multinomial category
          start_letter \<and>
      (dropout rnn \<noteq> 0 \<longrightarrow>
         (nn_Dropout (dropout rnn) (training rnn) zeroed xs = xs \<longleftrightarrow>
          list_all (\<lambda>x. x = 0) xs)))"
proof (intro conjI impI)
  assume e: "\<not> training rnn"
  from forward_eval_no_dropout [OF e]
  show "forward rnn zeroed cat inp hidden = forward_no_dropout rnn cat inp hidden" by simp
  from forward_eval_no_dropout [OF e]
  have "(\<lambda>i. forward rnn (masks i)) = (\<lambda>i. forward_no_dropout rnn)" by simp
  then show "sample rnn all_categories masks multinomial category start_letter =
        sample_over (\<lambda>i. forward_no_dropout rnn) rnn all_categories multinomial category
          start_letter"
    by (simp add: sample_over_eq)
next
  assume t: "training rnn"
  from forward_training_dropout [OF t]
  show "forward rnn zeroed cat inp hidden = forward_dropout rnn zeroed cat inp hidden" by simp
  from forward_training_dropout [OF t]
  have "(\<lambda>i. forward rnn (masks i)) = (\<lambda>i. forward_dropout rnn (masks i))" by simp
  then show "sample rnn all_categories masks multinomial category start_letter =
        sample_over (\<lambda>i. forward_dropout rnn (masks i)) rnn all_categories multinomial category
          start_letter"
    by (simp add: sample_over_eq)
next
  assume "training rnn" and "dropout rnn \<noteq> 0"
  then show "nn_Dropout (dropout rnn) (training rnn) zeroed xs = xs \<longleftrightarrow>
          list_all (\<lambda>x. x = 0) xs"
    by (simp add: nn_Dropout_identity_iff)
qed

theorem sample_dropout_follows_mode_witness:
  "\<not> training ((const_RNN 1 ((zeros n_letters)[1 := 90]))\<lparr>training := False\<rparr>) \<and>
   sample_over
     (\<lambda>i. forward_no_dropout ((const_RNN 1 ((zeros n_letters)[1 := 90]))\<lparr>training := False\<rparr>))
     ((const_RNN 1 ((zeros n_letters)[1 := 90]))\<lparr>training := False\<rparr>) [''X'']
     (\<lambda>i d. inverse_cdf (1 / 100) d) ''X'' ''A'' = Inr ''Abbbbbbbbbbbbbbbbbbbb'' \<and>
   training (const_RNN 1 ((zeros n_letters)[1 := 90])) \<and>
   dropout (const_RNN 1 ((zeros n_letters)[1 := 90])) \<noteq> 0 \<and>
   sample_over (\<lambda>i. forward_dropout (const_RNN 1 ((zeros n_letters)[1 := 90])) (\<lambda>j. j = 1))
     (const_RNN 1 ((zeros n_letters)[1 := 90])) [''X'']
     (\<lambda>i d. inverse_cdf (1 / 100) d) ''X'' ''A'' = Inr ''Aaaaaaaaaaaaaaaaaaaaa'' \<and>
   nn_Dropout (dropout (const_RNN 1 ((zeros n_letters)[1 := 90])))
     (training (const_RNN 1 ((zeros n_letters)[1 := 90]))) (\<lambda>j. False) [9 / 10] \<noteq> [9 / 10]"
proof -
  let ?rnn = "const_RNN 1 ((zeros n_letters)[1 := 90])"
  let ?ev = "?rnn\<lparr>training := False\<rparr>"
  let ?M = "\<lambda>(i::nat) d. inverse_cdf (1 / 100) d"
  have e: "\<not> training ?ev" by simp
  have t: "training ?rnn" "dropout ?rnn \<noteq> 0" by simp_all
  from sample_dropout_follows_mode [of ?ev _ _ _ _ "[''X'']" "\<lambda>i j. j = 1" ?M "''X''" "''A''"] e
    sample_run_eval_mode
  have 1: "sample_over (\<lambda>i. forward_no_dropout ?ev) ?ev [''X''] ?M ''X'' ''A''
      = Inr ''Abbbbbbbbbbbbbbbbbbbb''"
    by simp
  from sample_dropout_follows_mode [of ?rnn _ _ _ _ "[''X'']" "\<lambda>i j. j = 1" ?M "''X''" "''A''"] t
    sample_run_training_mode
  have 2: "sample_over (\<lambda>i. forward_dropout ?rnn (\<lambda>j. j = 1)) ?rnn [''X''] ?M ''X'' ''A''
      = Inr ''Aaaaaaaaaaaaaaaaaaaaa''"
    by simp
  from sample_dropout_follows_mode [of ?rnn "\<lambda>j. False" _ _ _ _ _ _ _ _ "[9 / 10]"] t
  have 3: "nn_Dropout (dropout ?rnn) (training ?rnn) (\<lambda>j. False) [9 / 10] \<noteq> [9 / 10]"
    by simp
  from e t 1 2 3 show ?thesis by blast
qed

end
